theory Spec2Isabelle
  imports Main "HOL-Library.Product_Lexorder"
begin

section \<open>JSON values and the Python primitives the code relies on\<close>

text \<open>
  The library manipulates Atlassian Document Format trees that arrive as decoded JSON.
  A decoded JSON value is a Python \<^verbatim>\<open>None\<close>, \<^verbatim>\<open>bool\<close>, \<^verbatim>\<open>int\<close>, \<^verbatim>\<open>str\<close>,
  \<^verbatim>\<open>list\<close> or \<^verbatim>\<open>dict\<close>.  A dict is an association list in insertion order
  (lookups read the first binding of a key); floating point numbers are not modelled.
  Characters are bytes, so \<^verbatim>\<open>str.lower\<close> and \<^verbatim>\<open>str.isdigit\<close> are the ASCII ones.
\<close>

datatype json =
    JNull
  | JBool bool
  | JInt int
  | JStr string
  | JArr "json list"
  | JObj "(string \<times> json) list"

type_synonym dict = "(string \<times> json) list"

text \<open>
  Exceptions are values.  \<open>ValidationError\<close> is pydantic's (a subclass of
  \<^verbatim>\<open>ValueError\<close>).
\<close>

datatype py_error =
    IndexError
  | TypeError
  | AttributeError
  | ValueError string
  | ValidationError
  | RuntimeError string

text \<open>Python truthiness of a decoded JSON value (\<^verbatim>\<open>if x:\<close>).\<close>

fun truthy :: "json \<Rightarrow> bool" where
  "truthy JNull = False"
| "truthy (JBool b) = b"
| "truthy (JInt i) = (i \<noteq> 0)"
| "truthy (JStr s) = (s \<noteq> [])"
| "truthy (JArr xs) = (xs \<noteq> [])"
| "truthy (JObj kvs) = (kvs \<noteq> [])"

text \<open>
  Python equality of decoded JSON values: \<^verbatim>\<open>True == 1\<close>, lists compare element by
  element, dicts compare as mappings whatever the order of their keys.
\<close>

function py_eq :: "json \<Rightarrow> json \<Rightarrow> bool" where
  "py_eq JNull y = (y = JNull)"
| "py_eq (JBool a) y =
     (case y of JBool b \<Rightarrow> a = b | JInt j \<Rightarrow> (if a then 1 else 0) = j | _ \<Rightarrow> False)"
| "py_eq (JInt i) y =
     (case y of JInt j \<Rightarrow> i = j | JBool b \<Rightarrow> i = (if b then 1 else 0) | _ \<Rightarrow> False)"
| "py_eq (JStr s) y = (y = JStr s)"
| "py_eq (JArr xs) y =
     (case y of
        JArr ys \<Rightarrow> length xs = length ys \<and> list_all (\<lambda>(x, y'). py_eq x y') (zip xs ys)
      | _ \<Rightarrow> False)"
| "py_eq (JObj a) y =
     (case y of
        JObj b \<Rightarrow>
          length a = length b
          \<and> list_all (\<lambda>(k, v). case map_of b k of Some w \<Rightarrow> py_eq v w | None \<Rightarrow> False) a
      | _ \<Rightarrow> False)"
  by pat_completeness auto
termination
proof (relation "measure (\<lambda>(x, y). size x)")
  show "wf (measure (\<lambda>(x, y). size x))" by simp
next
  fix xs ys :: "json list" and y :: json and z :: "json \<times> json" and x y'
  assume "z \<in> set (zip xs ys)" and "(x, y') = z"
  then have "x \<in> set xs" by (auto dest: set_zip_leftD)
  then have "size x \<le> size_list size xs" by (induction xs) auto
  then show "((x, y'), JArr xs, y) \<in> measure (\<lambda>(x, y). size x)" by simp
next
  fix a :: dict and y :: json and z :: "string \<times> json" and k v w
  assume "z \<in> set a" and "(k, v) = z"
  then have "(k, v) \<in> set a" by simp
  then have "size v \<le> size_list (size_prod (\<lambda>_. 0) size) a"
    by (induction a) (force simp: le_SucI trans_le_add2)+
  then show "((v, w), JObj a, y) \<in> measure (\<lambda>(x, y). size x)" by simp
qed

text \<open>\<^verbatim>\<open>d.get(k)\<close>: the value, or \<^verbatim>\<open>None\<close> when the key is absent.\<close>

definition dict_get :: "dict \<Rightarrow> string \<Rightarrow> json" where
  "dict_get d k = (case map_of d k of None \<Rightarrow> JNull | Some v \<Rightarrow> v)"

definition has_key :: "('k \<times> 'v) list \<Rightarrow> 'k \<Rightarrow> bool" where
  "has_key d k = (map_of d k \<noteq> None)"

text \<open>\<^verbatim>\<open>d[k] = v\<close>: overwrite in place when the key exists, append otherwise.\<close>

fun dict_set :: "('k \<times> 'v) list \<Rightarrow> 'k \<Rightarrow> 'v \<Rightarrow> ('k \<times> 'v) list" where
  "dict_set [] k v = [(k, v)]"
| "dict_set ((k', v') # d) k v = (if k' = k then (k, v) # d else (k', v') # dict_set d k v)"

text \<open>\<^verbatim>\<open>{**a, **b}\<close>: the keys of \<open>a\<close> in order, then the new keys of \<open>b\<close>; \<open>b\<close> wins.\<close>

definition dict_merge :: "dict \<Rightarrow> dict \<Rightarrow> dict" where
  "dict_merge a b = fold (\<lambda>(k, v) d. dict_set d k v) b a"

definition lower_char :: "char \<Rightarrow> char" where
  "lower_char c = (let n = (of_char c :: nat) in if 65 \<le> n \<and> n \<le> 90 then char_of (n + 32) else c)"

definition lower :: "string \<Rightarrow> string" where
  "lower s = map lower_char s"

fun starts_with :: "string \<Rightarrow> string \<Rightarrow> bool" where
  "starts_with [] s = True"
| "starts_with (p # ps) [] = False"
| "starts_with (p # ps) (c # cs) = (p = c \<and> starts_with ps cs)"

text \<open>\<^verbatim>\<open>needle in haystack\<close> on strings.\<close>

fun contains :: "string \<Rightarrow> string \<Rightarrow> bool" where
  "contains needle [] = (needle = [])"
| "contains needle (c # cs) = (starts_with needle (c # cs) \<or> contains needle cs)"

definition is_digit :: "char \<Rightarrow> bool" where
  "is_digit c = (let n = (of_char c :: nat) in 48 \<le> n \<and> n \<le> 57)"

text \<open>\<^verbatim>\<open>s.isdigit()\<close> and \<^verbatim>\<open>int(s)\<close> for a string of decimal digits.\<close>

definition isdigit :: "string \<Rightarrow> bool" where
  "isdigit s = (s \<noteq> [] \<and> list_all is_digit s)"

definition int_of_digits :: "string \<Rightarrow> nat" where
  "int_of_digits s = foldl (\<lambda>acc c. 10 * acc + ((of_char c :: nat) - 48)) 0 s"

text \<open>\<^verbatim>\<open>str(n)\<close> for a non-negative integer and \<^verbatim>\<open>'.'.join(parts)\<close>.\<close>

fun str_nat :: "nat \<Rightarrow> string" where
  "str_nat n = (if n < 10 then [char_of (48 + n)] else str_nat (n div 10) @ [char_of (48 + n mod 10)])"

declare str_nat.simps [simp del]

fun join_dot :: "string list \<Rightarrow> string" where
  "join_dot [] = []"
| "join_dot [s] = s"
| "join_dot (s # t # ss) = s @ ''.'' @ join_dot (t # ss)"

text \<open>The first error of a list of results, or all the values.\<close>

fun sequence :: "('e + 'a) list \<Rightarrow> 'e + 'a list" where
  "sequence [] = Inr []"
| "sequence (Inl e # rs) = Inl e"
| "sequence (Inr x # rs) = (case sequence rs of Inl e \<Rightarrow> Inl e | Inr xs \<Rightarrow> Inr (x # xs))"

text \<open>Sequencing of computations that may raise: the first exception ends the chain.\<close>

definition bind_err :: "'e + 'a \<Rightarrow> ('a \<Rightarrow> 'e + 'b) \<Rightarrow> 'e + 'b" where
  "bind_err r f = (case r of Inl e \<Rightarrow> Inl e | Inr x \<Rightarrow> f x)"

section \<open>Schema tables (constants.py)\<close>

text \<open>The keys of \<^verbatim>\<open>NODE_TYPES\<close>, \<^verbatim>\<open>MARK_TYPES\<close>, \<^verbatim>\<open>PANEL_TYPES\<close> and \<^verbatim>\<open>CONFLUENCE_COLORS\<close>.\<close>

definition NODE_TYPES :: "string list" where
  "NODE_TYPES = [''blockquote'', ''bulletList'', ''codeBlock'', ''heading'', ''mediaGroup'',
     ''mediaSingle'', ''orderedList'', ''panel'', ''paragraph'', ''rule'', ''table'',
     ''date'', ''emoji'', ''hardBreak'', ''inlineCard'', ''mention'', ''status'', ''text'',
     ''doc'', ''listItem'', ''tableRow'', ''tableCell'', ''tableHeader'',
     ''extension'', ''bodiedExtension'', ''inlineExtension'']"

definition MARK_TYPES :: "string list" where
  "MARK_TYPES = [''code'', ''em'', ''link'', ''strike'', ''strong'', ''subsup'', ''textColor'',
     ''backgroundColor'', ''underline'', ''alignment'']"

definition PANEL_TYPES :: "string list" where
  "PANEL_TYPES = [''info'', ''note'', ''warning'', ''error'', ''success'', ''tip'']"

definition CONFLUENCE_COLORS :: "string list" where
  "CONFLUENCE_COLORS = [''red'', ''orange'', ''yellow'', ''green'', ''teal'', ''blue'', ''purple'',
     ''gray'', ''light-red'', ''light-orange'', ''light-yellow'', ''light-green'', ''light-teal'',
     ''light-blue'', ''light-purple'', ''light-gray'']"

definition ADF_VERSION :: int where
  "ADF_VERSION = 1"

definition ADF_DOCUMENT_TYPE :: string where
  "ADF_DOCUMENT_TYPE = ''doc''"

definition MAX_DEPTH :: nat where
  "MAX_DEPTH = 20"

definition MAX_TEXT_LENGTH :: nat where
  "MAX_TEXT_LENGTH = 10000"

definition MAX_ATTRS_PER_NODE :: nat where
  "MAX_ATTRS_PER_NODE = 50"

definition EMPTY_ADF_DOCUMENT :: json where
  "EMPTY_ADF_DOCUMENT = JObj [(''version'', JInt 1), (''type'', JStr ''doc''), (''content'', JArr [])]"


section \<open>The pydantic models (types.py)\<close>

text \<open>
  \<^verbatim>\<open>ADFMarkModel\<close>, \<^verbatim>\<open>ADFNodeModel\<close> and \<^verbatim>\<open>ADFDocumentModel\<close> are pydantic models with
  \<^verbatim>\<open>extra="allow"\<close>.  A model object holds its declared fields, the extra keys of the
  input, and the set of declared fields the input gave (\<^verbatim>\<open>model_fields_set\<close>), which
  \<^verbatim>\<open>model_dump(exclude_unset=True)\<close> reads.  An \<^verbatim>\<open>Optional\<close> field holds \<open>None\<close> only when
  the input gave \<^verbatim>\<open>null\<close>; an absent key takes the declared default.

  Validation only ever puts node models into a \<^verbatim>\<open>content\<close> list, but the list is a
  plain Python list: \<^verbatim>\<open>_replace_element_at_path\<close> and \<^verbatim>\<open>_insert_element_at_path\<close> store
  a new element that is not a dict as it is.  \<open>Foreign\<close> is such an element.  It has none
  of the attributes of a model: read with \<^verbatim>\<open>getattr(node, 'type', 'unknown')\<close>,
  \<^verbatim>\<open>getattr(node, 'text', None)\<close> and the like it gives the defaults below.
\<close>

datatype mark = Mark
  (mark_type: string)
  (mark_attrs: "dict option")
  (mark_extra: dict)
  (mark_fields_set: "string list")

datatype node =
    Node
      (node_type: string)
      (node_attrs: "dict option")
      (node_content: "node list option")
      (node_text: "string option")
      (node_marks: "mark list option")
      (node_extra: dict)
      (node_fields_set: "string list")
  | Foreign (foreign_value: json)
where
  "node_type (Foreign j) = ''unknown''"
| "node_attrs (Foreign j) = None"
| "node_content (Foreign j) = None"
| "node_text (Foreign j) = None"
| "node_marks (Foreign j) = None"
| "node_extra (Foreign j) = []"
| "node_fields_set (Foreign j) = []"
| "foreign_value (Node t a c tx ms ex fs) = JNull"

text \<open>Whether an element of the tree is a node model, and its truth value (\<^verbatim>\<open>if node:\<close>).\<close>

fun is_model :: "node \<Rightarrow> bool" where
  "is_model (Node t a c tx ms ex fs) = True"
| "is_model (Foreign j) = False"

fun element_truthy :: "node \<Rightarrow> bool" where
  "element_truthy (Node t a c tx ms ex fs) = True"
| "element_truthy (Foreign j) = truthy j"

text \<open>\<^verbatim>\<open>version: Literal[1]\<close> and \<^verbatim>\<open>type: Literal["doc"]\<close> can hold one value each.\<close>

record doc_model =
  dm_content :: "node list"
  dm_extra :: dict
  dm_fields_set :: "string list"

definition fields_given :: "string list \<Rightarrow> dict \<Rightarrow> string list" where
  "fields_given declared kvs = filter (has_key kvs) declared"

definition extra_items :: "string list \<Rightarrow> dict \<Rightarrow> dict" where
  "extra_items declared kvs = filter (\<lambda>(k, v). k \<notin> set declared) kvs"

definition mark_fields :: "string list" where
  "mark_fields = [''type'', ''attrs'']"

definition node_fields :: "string list" where
  "node_fields = [''type'', ''attrs'', ''content'', ''text'', ''marks'']"

definition doc_fields :: "string list" where
  "doc_fields = [''version'', ''type'', ''content'']"

text \<open>\<^verbatim>\<open>attrs: Optional[Dict[str, Any]] = Field(default_factory=dict)\<close>.\<close>

definition validate_attrs_field :: "json option \<Rightarrow> py_error + dict option" where
  "validate_attrs_field v =
     (case v of
        None \<Rightarrow> Inr (Some [])
      | Some JNull \<Rightarrow> Inr None
      | Some (JObj d) \<Rightarrow> Inr (Some d)
      | Some _ \<Rightarrow> Inl ValidationError)"

text \<open>\<^verbatim>\<open>text: Optional[str] = Field(None)\<close>.\<close>

definition validate_text_field :: "json option \<Rightarrow> py_error + string option" where
  "validate_text_field v =
     (case v of
        None \<Rightarrow> Inr None
      | Some JNull \<Rightarrow> Inr None
      | Some (JStr s) \<Rightarrow> Inr (Some s)
      | Some _ \<Rightarrow> Inl ValidationError)"

text \<open>
  \<^verbatim>\<open>type: str = Field(...)\<close> with the \<^verbatim>\<open>validate_type\<close> field validator: a required
  string that must be a key of the given table.
\<close>

definition validate_type_field :: "string list \<Rightarrow> json option \<Rightarrow> py_error + string" where
  "validate_type_field table v =
     (case v of
        Some (JStr t) \<Rightarrow> if t \<notin> set table then Inl ValidationError else Inr t
      | _ \<Rightarrow> Inl ValidationError)"

text \<open>\<^verbatim>\<open>ADFMarkModel.model_validate\<close>.\<close>

definition validate_mark :: "json \<Rightarrow> py_error + mark" where
  "validate_mark j =
     (case j of
        JObj kvs \<Rightarrow>
          bind_err (validate_type_field MARK_TYPES (map_of kvs ''type'')) (\<lambda>t.
          bind_err (validate_attrs_field (map_of kvs ''attrs'')) (\<lambda>a.
          Inr (Mark t a (extra_items mark_fields kvs) (fields_given mark_fields kvs))))
      | _ \<Rightarrow> Inl ValidationError)"

text \<open>\<^verbatim>\<open>marks: Optional[List[ADFMarkModel]] = Field(default_factory=list)\<close>.\<close>

definition validate_marks_field :: "json option \<Rightarrow> py_error + mark list option" where
  "validate_marks_field v =
     (case v of
        None \<Rightarrow> Inr (Some [])
      | Some JNull \<Rightarrow> Inr None
      | Some (JArr ms) \<Rightarrow> (case sequence (map validate_mark ms) of Inl e \<Rightarrow> Inl e | Inr xs \<Rightarrow> Inr (Some xs))
      | Some _ \<Rightarrow> Inl ValidationError)"

text \<open>
  \<^verbatim>\<open>ADFNodeModel.model_validate\<close>: the type must be a string of \<^verbatim>\<open>NODE_TYPES\<close>, and every
  child of \<^verbatim>\<open>content\<close> and every mark must validate in turn.  \<open>content_items\<close> are the
  elements of a \<^verbatim>\<open>content\<close> that is a list; \<open>node_of_parts\<close> checks the fields of one
  dict, given the outcome \<open>children\<close> of validating those elements.
\<close>

definition content_items :: "dict \<Rightarrow> json list" where
  "content_items kvs = (case map_of kvs ''content'' of Some (JArr xs) \<Rightarrow> xs | _ \<Rightarrow> [])"

text \<open>\<^verbatim>\<open>content: Optional[List['ADFNodeModel']] = Field(default_factory=list)\<close>.\<close>

definition validate_content_field ::
    "json option \<Rightarrow> py_error + node list \<Rightarrow> py_error + node list option" where
  "validate_content_field v children =
     (case v of
        None \<Rightarrow> Inr (Some [])
      | Some JNull \<Rightarrow> Inr None
      | Some (JArr xs) \<Rightarrow> (case children of Inl e \<Rightarrow> Inl e | Inr ns \<Rightarrow> Inr (Some ns))
      | Some _ \<Rightarrow> Inl ValidationError)"

definition node_of_parts :: "dict \<Rightarrow> py_error + node list \<Rightarrow> py_error + node" where
  "node_of_parts kvs children =
     bind_err (validate_type_field NODE_TYPES (map_of kvs ''type'')) (\<lambda>t.
     bind_err (validate_attrs_field (map_of kvs ''attrs'')) (\<lambda>a.
     bind_err (validate_content_field (map_of kvs ''content'') children) (\<lambda>c.
     bind_err (validate_text_field (map_of kvs ''text'')) (\<lambda>tx.
     bind_err (validate_marks_field (map_of kvs ''marks'')) (\<lambda>ms.
     Inr (Node t a c tx ms (extra_items node_fields kvs) (fields_given node_fields kvs)))))))"

function (sequential) node_model_validate :: "json \<Rightarrow> py_error + node" where
  "node_model_validate (JObj kvs) = node_of_parts kvs (sequence (map node_model_validate (content_items kvs)))"
| "node_model_validate _ = Inl ValidationError"
  by pat_completeness auto
termination
proof (relation "measure size")
  show "wf (measure size)" by simp
next
  fix kvs :: dict and x :: json
  assume mem: "x \<in> set (content_items kvs)"
  have look: "map_of kvs k = Some w \<Longrightarrow> size w \<le> size_list (size_prod (\<lambda>_. 0) size) kvs" for k w
    by (induction kvs) (force split: if_splits simp: le_SucI trans_le_add2)+
  have est: "x \<in> set xs \<Longrightarrow> size x \<le> size_list size xs" for xs :: "json list"
    by (induction xs) auto
  from mem have "\<exists>xs. map_of kvs ''content'' = Some (JArr xs) \<and> x \<in> set xs"
    by (cases "map_of kvs ''content''") (auto simp: content_items_def split: json.splits)
  then obtain xs where xs: "map_of kvs ''content'' = Some (JArr xs)" "x \<in> set xs"
    by blast
  from look [OF xs(1)] est [OF xs(2)] show "(x, JObj kvs) \<in> measure size"
    by simp
qed

text \<open>\<^verbatim>\<open>ADFDocumentModel.model_validate\<close>.\<close>

text \<open>
  A \<^verbatim>\<open>Literal\<close> field admits the values that equal (and hash like) the literal, so
  \<^verbatim>\<open>True\<close> passes for \<^verbatim>\<open>Literal[1]\<close>; the field then holds the literal itself.
\<close>

definition validate_literal_field :: "json \<Rightarrow> json option \<Rightarrow> py_error + unit" where
  "validate_literal_field lit v =
     (case v of None \<Rightarrow> Inr () | Some x \<Rightarrow> if py_eq x lit then Inr () else Inl ValidationError)"

definition validate_document_model :: "json \<Rightarrow> py_error + doc_model" where
  "validate_document_model j =
     (case j of
        JObj kvs \<Rightarrow>
          bind_err (validate_literal_field (JInt 1) (map_of kvs ''version'')) (\<lambda>_.
          bind_err (validate_literal_field (JStr ''doc'') (map_of kvs ''type'')) (\<lambda>_.
          bind_err (case map_of kvs ''content'' of
                      None \<Rightarrow> Inr []
                    | Some (JArr xs) \<Rightarrow> sequence (map node_model_validate xs)
                    | Some _ \<Rightarrow> Inl ValidationError) (\<lambda>ns.
          Inr \<lparr>dm_content = ns, dm_extra = extra_items doc_fields kvs,
               dm_fields_set = fields_given doc_fields kvs\<rparr>)))
      | _ \<Rightarrow> Inl ValidationError)"

section \<open>Serialisation of the models\<close>

text \<open>
  \<^verbatim>\<open>model_dump()\<close> lists every declared field in declaration order and then the extra
  keys; \<^verbatim>\<open>model_dump(exclude_none=True, exclude_unset=True)\<close> drops the declared fields
  the input did not give and every field whose value is \<^verbatim>\<open>None\<close>.  The flag \<open>excl\<close>
  selects the second form; it is passed down to nested models.  An element of a
  \<^verbatim>\<open>content\<close> list that is not a model is serialised as the value it is (pydantic
  warns and carries on).
\<close>

definition keep_field :: "bool \<Rightarrow> string list \<Rightarrow> string \<times> json \<Rightarrow> bool" where
  "keep_field excl fs kv = (if excl then fst kv \<in> set fs \<and> snd kv \<noteq> JNull else True)"

definition keep_extra :: "bool \<Rightarrow> string \<times> json \<Rightarrow> bool" where
  "keep_extra excl kv = (if excl then snd kv \<noteq> JNull else True)"

definition dump_attrs :: "dict option \<Rightarrow> json" where
  "dump_attrs a = (case a of None \<Rightarrow> JNull | Some d \<Rightarrow> JObj d)"

definition dump_text :: "string option \<Rightarrow> json" where
  "dump_text t = (case t of None \<Rightarrow> JNull | Some s \<Rightarrow> JStr s)"

fun dump_mark :: "bool \<Rightarrow> mark \<Rightarrow> json" where
  "dump_mark excl (Mark t a ex fs) =
     JObj (filter (keep_field excl fs) [(''type'', JStr t), (''attrs'', dump_attrs a)]
           @ filter (keep_extra excl) ex)"

definition dump_marks :: "bool \<Rightarrow> mark list option \<Rightarrow> json" where
  "dump_marks excl ms = (case ms of None \<Rightarrow> JNull | Some xs \<Rightarrow> JArr (map (dump_mark excl) xs))"

fun dump_node :: "bool \<Rightarrow> node \<Rightarrow> json" where
  "dump_node excl (Node t a c tx ms ex fs) =
     JObj (filter (keep_field excl fs)
             [(''type'', JStr t),
              (''attrs'', dump_attrs a),
              (''content'', (case c of None \<Rightarrow> JNull | Some ns \<Rightarrow> JArr (map (dump_node excl) ns))),
              (''text'', dump_text tx),
              (''marks'', dump_marks excl ms)]
           @ filter (keep_extra excl) ex)"
| "dump_node excl (Foreign j) = j"

definition dump_doc_model :: "bool \<Rightarrow> doc_model \<Rightarrow> dict" where
  "dump_doc_model excl m =
     filter (keep_field excl (dm_fields_set m))
       [(''version'', JInt 1),
        (''type'', JStr ''doc''),
        (''content'', JArr (map (dump_node excl) (dm_content m)))]
     @ filter (keep_extra excl) (dm_extra m)"

section \<open>The document (document.py)\<close>

record element_path =
  ep_path :: "nat list"
  ep_type :: string
  ep_text_content :: json

record adf_document =
  raw_data :: json
  model :: doc_model
  element_map :: "(string \<times> element_path) list"

text \<open>
  \<^verbatim>\<open>_build_element_map_recursive\<close>: one entry per node, keyed \<^verbatim>\<open>path_i.j.k\<close>, in
  pre-order; a node is entered when its \<^verbatim>\<open>content\<close> is a non-empty list.
\<close>

definition element_key :: "nat list \<Rightarrow> string" where
  "element_key p = ''path_'' @ join_dot (map str_nat p)"

fun build_element_map_node :: "nat list \<Rightarrow> node \<Rightarrow> (string \<times> element_path) list"
  and build_element_map_recursive :: "nat list \<Rightarrow> nat \<Rightarrow> node list \<Rightarrow> (string \<times> element_path) list"
where
  "build_element_map_node current_path (Node t a c tx ms ex fs) =
     (element_key current_path, \<lparr>ep_path = current_path, ep_type = t, ep_text_content = dump_text tx\<rparr>)
     # (case c of
          Some (x # xs) \<Rightarrow> build_element_map_recursive current_path 0 (x # xs)
        | _ \<Rightarrow> [])"
| "build_element_map_node current_path (Foreign j) =
     [(element_key current_path,
       \<lparr>ep_path = current_path, ep_type = ''unknown'', ep_text_content = JNull\<rparr>)]"
| "build_element_map_recursive path i [] = []"
| "build_element_map_recursive path i (n # ns) =
     build_element_map_node (path @ [i]) n @ build_element_map_recursive path (Suc i) ns"

definition build_element_map :: "doc_model \<Rightarrow> (string \<times> element_path) list" where
  "build_element_map m = build_element_map_recursive [] 0 (dm_content m)"

text \<open>
  The fallback of \<^verbatim>\<open>__init__\<close> validates \<^verbatim>\<open>EMPTY_ADF_DOCUMENT\<close>; that validation succeeds
  (lemma \<open>fallback_model_eq\<close> below), so the second branch is never taken.
\<close>

definition fallback_model :: doc_model where
  "fallback_model =
     (case validate_document_model EMPTY_ADF_DOCUMENT of
        Inr m \<Rightarrow> m
      | Inl e \<Rightarrow> \<lparr>dm_content = [], dm_extra = [], dm_fields_set = []\<rparr>)"

text \<open>
  \<^verbatim>\<open>ADFDocument.__init__\<close>: keep the raw data, parse it, and on any parse failure keep the
  model of the empty document instead.
\<close>

definition ADFDocument_init :: "json option \<Rightarrow> adf_document" where
  "ADFDocument_init data_opt =
     (let data = (case data_opt of None \<Rightarrow> EMPTY_ADF_DOCUMENT | Some d \<Rightarrow> d);
          m = (case validate_document_model data of Inr m \<Rightarrow> m | Inl e \<Rightarrow> fallback_model)
      in \<lparr>raw_data = data, model = m, element_map = build_element_map m\<rparr>)"

definition from_dict :: "json \<Rightarrow> adf_document" where
  "from_dict data = ADFDocument_init (if data = JNull then None else Some data)"

text \<open>\<^verbatim>\<open>to_dict\<close>: the exclusive dump, with \<^verbatim>\<open>version\<close> and \<^verbatim>\<open>type\<close> added when missing.\<close>

definition to_dict :: "adf_document \<Rightarrow> dict" where
  "to_dict d =
     (let result = dump_doc_model True (model d);
          result1 = (if has_key result ''version'' then result else result @ [(''version'', JInt 1)]);
          result2 = (if has_key result1 ''type'' then result1 else result1 @ [(''type'', JStr ''doc'')])
      in result2)"

definition clone :: "adf_document \<Rightarrow> adf_document" where
  "clone d = ADFDocument_init (Some (raw_data d))"

definition is_empty :: "adf_document \<Rightarrow> bool" where
  "is_empty d = (length (dm_content (model d)) = 0)"


text \<open>
  Paths are lists of non-negative child indices.  \<^verbatim>\<open>_get_node_by_path\<close> walks
  \<^verbatim>\<open>current = current[index].content\<close> over all but the last index; \<open>navigate\<close> is that
  loop.  A \<^verbatim>\<open>content\<close> that is \<^verbatim>\<open>None\<close> makes the next subscript a \<^verbatim>\<open>TypeError\<close>, which
  the method does not catch; \<^verbatim>\<open>IndexError\<close> and \<^verbatim>\<open>AttributeError\<close> (an element that is
  not a model has no \<^verbatim>\<open>content\<close>) become \<^verbatim>\<open>None\<close>.  The method returns the element it
  finds, so a stored \<^verbatim>\<open>None\<close> reads as \<^verbatim>\<open>None\<close>.
\<close>

fun navigate :: "node list option \<Rightarrow> nat list \<Rightarrow> py_error + node list option" where
  "navigate cur [] = Inr cur"
| "navigate None (i # rest) = Inl TypeError"
| "navigate (Some xs) (i # rest) =
     (if i < length xs
      then (if is_model (xs ! i) then navigate (node_content (xs ! i)) rest else Inl AttributeError)
      else Inl IndexError)"

definition get_node_by_path :: "adf_document \<Rightarrow> nat list \<Rightarrow> py_error + node option" where
  "get_node_by_path d path =
     (case navigate (Some (dm_content (model d))) (butlast path) of
        Inl IndexError \<Rightarrow> Inr None
      | Inl AttributeError \<Rightarrow> Inr None
      | Inl e \<Rightarrow> Inl e
      | Inr cur \<Rightarrow>
          if path = [] then Inr None
          else (case cur of
                  None \<Rightarrow> Inl TypeError
                | Some xs \<Rightarrow>
                    if last path < length xs \<and> xs ! last path \<noteq> Foreign JNull
                    then Inr (Some (xs ! last path))
                    else Inr None))"

definition get_element_at_path :: "adf_document \<Rightarrow> nat list \<Rightarrow> py_error + node option" where
  "get_element_at_path d path = get_node_by_path d path"

text \<open>
  \<^verbatim>\<open>_get_parent_at_path\<close> returns the live list a path leads to, or \<^verbatim>\<open>None\<close>.  The
  callers mutate that list in place; \<open>put_parent_at_path\<close> writes the mutated list back
  at the same place of the tree.
\<close>

fun get_parent_at_path :: "node list \<Rightarrow> nat list \<Rightarrow> node list option" where
  "get_parent_at_path current [] = Some current"
| "get_parent_at_path current (index # rest) =
     (if index \<ge> length current then None
      else (case node_content (current ! index) of
              Some c \<Rightarrow> get_parent_at_path c rest
            | None \<Rightarrow> None))"

fun set_node_content :: "node \<Rightarrow> node list option \<Rightarrow> node" where
  "set_node_content (Node t a c tx ms ex fs) c' = Node t a c' tx ms ex fs"
| "set_node_content (Foreign j) c' = Foreign j"

fun put_parent_at_path :: "node list \<Rightarrow> nat list \<Rightarrow> node list \<Rightarrow> node list" where
  "put_parent_at_path current [] new = new"
| "put_parent_at_path current (index # rest) new =
     (if index \<ge> length current then current
      else (case node_content (current ! index) of
              Some c \<Rightarrow> current[index := set_node_content (current ! index)
                                           (Some (put_parent_at_path c rest new))]
            | None \<Rightarrow> current))"

definition with_content :: "adf_document \<Rightarrow> node list \<Rightarrow> adf_document" where
  "with_content d ns = d\<lparr>model := (model d)\<lparr>dm_content := ns\<rparr>\<rparr>"

text \<open>\<^verbatim>\<open>self._raw_data = self.to_dict(); self._build_element_map()\<close>.\<close>

definition refresh :: "adf_document \<Rightarrow> adf_document" where
  "refresh d = d\<lparr>raw_data := JObj (to_dict d), element_map := build_element_map (model d)\<rparr>"

text \<open>
  \<^verbatim>\<open>_replace_element_at_path\<close>.  A dict is validated into a node model first; pydantic's
  \<^verbatim>\<open>ValidationError\<close> is not among the caught exceptions and leaves the document as it was.
  Any other new element is stored as it is.
\<close>

definition element_to_store :: "json \<Rightarrow> py_error + node" where
  "element_to_store new_element =
     (case new_element of
        JObj kvs \<Rightarrow> node_model_validate (JObj kvs)
      | _ \<Rightarrow> Inr (Foreign new_element))"

definition replace_element_at_path ::
    "adf_document \<Rightarrow> nat list \<Rightarrow> json \<Rightarrow> (py_error + bool) \<times> adf_document" where
  "replace_element_at_path d path new_element =
     (if path = [] then (Inr False, d)
      else
        (case get_parent_at_path (dm_content (model d)) (butlast path) of
           None \<Rightarrow> (Inr False, d)
         | Some parent \<Rightarrow>
             if last path \<ge> length parent then (Inr False, d)
             else
               (case element_to_store new_element of
                  Inl e \<Rightarrow> (Inl e, d)
                | Inr n \<Rightarrow>
                    (Inr True,
                     refresh (with_content d
                       (put_parent_at_path (dm_content (model d)) (butlast path)
                          (parent[last path := n])))))))"

text \<open>\<^verbatim>\<open>_insert_element_at_path\<close>: the index is clamped into \<open>[0, len(parent)]\<close>.\<close>

definition clamp_index :: "int \<Rightarrow> nat \<Rightarrow> nat" where
  "clamp_index index n = nat (max 0 (min index (int n)))"

definition list_insert :: "'a list \<Rightarrow> nat \<Rightarrow> 'a \<Rightarrow> 'a list" where
  "list_insert xs k x = take k xs @ [x] @ drop k xs"

definition insert_element_at_path ::
    "adf_document \<Rightarrow> nat list \<Rightarrow> int \<Rightarrow> json \<Rightarrow> (py_error + bool) \<times> adf_document" where
  "insert_element_at_path d parent_path index new_element =
     (case get_parent_at_path (dm_content (model d)) parent_path of
        None \<Rightarrow> (Inr False, d)
      | Some parent \<Rightarrow>
          (let insert_index = clamp_index index (length parent) in
           (case element_to_store new_element of
              Inl e \<Rightarrow> (Inl e, d)
            | Inr n \<Rightarrow>
                (Inr True,
                 refresh (with_content d
                   (put_parent_at_path (dm_content (model d)) parent_path
                      (list_insert parent insert_index n)))))))"

text \<open>\<^verbatim>\<open>_delete_element_at_path\<close>.\<close>

definition list_pop :: "'a list \<Rightarrow> nat \<Rightarrow> 'a list" where
  "list_pop xs k = take k xs @ drop (Suc k) xs"

definition delete_element_at_path :: "adf_document \<Rightarrow> nat list \<Rightarrow> bool \<times> adf_document" where
  "delete_element_at_path d path =
     (if path = [] then (False, d)
      else
        (case get_parent_at_path (dm_content (model d)) (butlast path) of
           None \<Rightarrow> (False, d)
         | Some parent \<Rightarrow>
             if last path \<ge> length parent then (False, d)
             else
               (True,
                refresh (with_content d
                  (put_parent_at_path (dm_content (model d)) (butlast path)
                     (list_pop parent (last path)))))))"





section \<open>The finder (finder.py)\<close>

text \<open>Whether a value can be hashed (used as a dict key or a set member).\<close>

definition hashable :: "json \<Rightarrow> bool" where
  "hashable j = (case j of JArr xs \<Rightarrow> False | JObj d \<Rightarrow> False | _ \<Rightarrow> True)"

text \<open>\<^verbatim>\<open>for x in j\<close>: the elements of a list, the characters of a string, the keys of a dict.\<close>

definition py_iter :: "json \<Rightarrow> py_error + json list" where
  "py_iter j =
     (case j of
        JArr xs \<Rightarrow> Inr xs
      | JStr s \<Rightarrow> Inr (map (\<lambda>c. JStr [c]) s)
      | JObj d \<Rightarrow> Inr (map (\<lambda>kv. JStr (fst kv)) d)
      | _ \<Rightarrow> Inl TypeError)"

text \<open>
  The Python values the JSONPath traversal can reach from \<^verbatim>\<open>document.content\<close>: decoded
  JSON, a node or mark model, and a list of either.
\<close>

datatype pyval =
    PJson json
  | PNode node
  | PMark mark
  | PNodes "node list"
  | PMarks "mark list"

record search_result =
  sr_node :: pyval
  sr_path :: element_path
  sr_parent :: "json option"
  sr_index :: nat

text \<open>
  \<^verbatim>\<open>hasattr\<close>/\<^verbatim>\<open>getattr\<close> on the data attributes of a model: its declared fields and its
  extra keys.  The methods that every Python object also carries are not attributes here.
\<close>

fun py_getattr :: "pyval \<Rightarrow> string \<Rightarrow> pyval option" where
  "py_getattr (PNode (Node t a c tx ms ex fs)) name =
     (if name = ''type'' then Some (PJson (JStr t))
      else if name = ''attrs'' then Some (PJson (dump_attrs a))
      else if name = ''content'' then Some (case c of None \<Rightarrow> PJson JNull | Some ns \<Rightarrow> PNodes ns)
      else if name = ''text'' then Some (PJson (dump_text tx))
      else if name = ''marks'' then Some (case ms of None \<Rightarrow> PJson JNull | Some xs \<Rightarrow> PMarks xs)
      else map_option PJson (map_of ex name))"
| "py_getattr (PNode (Foreign j)) name = None"
| "py_getattr (PMark (Mark t a ex fs)) name =
     (if name = ''type'' then Some (PJson (JStr t))
      else if name = ''attrs'' then Some (PJson (dump_attrs a))
      else map_option PJson (map_of ex name))"
| "py_getattr v name = None"

text \<open>\<^verbatim>\<open>current[part]\<close> guarded by \<^verbatim>\<open>isinstance(current, list) and 0 <= part < len(current)\<close>.\<close>

fun element_value :: "node \<Rightarrow> pyval" where
  "element_value (Foreign j) = PJson j"
| "element_value n = PNode n"

fun py_index :: "pyval \<Rightarrow> nat \<Rightarrow> pyval option" where
  "py_index (PNodes ns) i = (if i < length ns then Some (element_value (ns ! i)) else None)"
| "py_index (PMarks ms) i = (if i < length ms then Some (PMark (ms ! i)) else None)"
| "py_index (PJson (JArr xs)) i = (if i < length xs then Some (PJson (xs ! i)) else None)"
| "py_index v i = None"

datatype path_part = PInt nat | PStr string

text \<open>\<^verbatim>\<open>re.split(r'[\.\[\]]', path)\<close>: the pieces between separator characters.\<close>

fun split_on :: "(char \<Rightarrow> bool) \<Rightarrow> string \<Rightarrow> string list" where
  "split_on sep [] = [[]]"
| "split_on sep (c # cs) =
     (if sep c then [] # split_on sep cs
      else (case split_on sep cs of w # ws \<Rightarrow> (c # w) # ws | [] \<Rightarrow> [[c]]))"

definition parse_simple_json_path :: "string \<Rightarrow> path_part list" where
  "parse_simple_json_path json_path =
     map (\<lambda>part. if isdigit part then PInt (int_of_digits part) else PStr part)
       (filter (\<lambda>part. part \<noteq> [])
          (split_on (\<lambda>c. c \<in> set ''.[]'') (dropWhile (\<lambda>c. c \<in> set ''$.'') json_path)))"

text \<open>\<^verbatim>\<open>_traverse_json_path\<close>; the result \<open>None\<close> is Python's \<^verbatim>\<open>return None\<close>.\<close>

fun traverse_json_path :: "pyval \<Rightarrow> path_part list \<Rightarrow> pyval option" where
  "traverse_json_path current [] = Some current"
| "traverse_json_path current (PInt i # rest) =
     (case py_index current i of Some v \<Rightarrow> traverse_json_path v rest | None \<Rightarrow> None)"
| "traverse_json_path current (PStr s # rest) =
     (case py_getattr current s of
        Some v \<Rightarrow> traverse_json_path v rest
      | None \<Rightarrow>
          (case current of
             PJson (JObj d) \<Rightarrow>
               (case map_of d s of Some v \<Rightarrow> traverse_json_path (PJson v) rest | None \<Rightarrow> None)
           | _ \<Rightarrow> None))"

text \<open>
  The three parts of a result that depend on the element found:
  \<^verbatim>\<open>element.model_dump() if hasattr(element, 'model_dump') else element\<close>,
  \<^verbatim>\<open>getattr(element, 'type', 'unknown')\<close> and \<^verbatim>\<open>getattr(element, 'text', None)\<close>.
\<close>

fun snapshot :: "pyval \<Rightarrow> pyval" where
  "snapshot (PNode n) = PJson (dump_node False n)"
| "snapshot (PMark m) = PJson (dump_mark False m)"
| "snapshot v = v"

fun type_of :: "pyval \<Rightarrow> string" where
  "type_of (PNode n) = node_type n"
| "type_of (PMark m) = mark_type m"
| "type_of v = ''unknown''"

fun text_of :: "pyval \<Rightarrow> json" where
  "text_of (PNode n) = dump_text (node_text n)"
| "text_of (PMark m) = dict_get (mark_extra m) ''text''"
| "text_of v = JNull"

definition numeric_parts :: "path_part list \<Rightarrow> nat list" where
  "numeric_parts parts = concat (map (\<lambda>p. case p of PInt i \<Rightarrow> [i] | PStr s \<Rightarrow> []) parts)"

text \<open>
  \<^verbatim>\<open>_search_by_json_path\<close>: everything runs inside \<^verbatim>\<open>try ... except Exception\<close>, so a
  path that is not a string (no \<^verbatim>\<open>lstrip\<close>) gives no result.  The traversal starts at the
  list \<^verbatim>\<open>document.content\<close>.
\<close>

definition search_by_json_path :: "json \<Rightarrow> adf_document \<Rightarrow> search_result list" where
  "search_by_json_path json_path document =
     (case json_path of
        JStr s \<Rightarrow>
          (let path_parts = parse_simple_json_path s in
           if path_parts = [] then []
           else
             (case traverse_json_path (PNodes (dm_content (model document))) path_parts of
                None \<Rightarrow> []
              | Some (PJson JNull) \<Rightarrow> []
              | Some element \<Rightarrow>
                  (let numeric_path = numeric_parts path_parts in
                   [\<lparr>sr_node = snapshot element,
                     sr_path = \<lparr>ep_path = numeric_path, ep_type = type_of element,
                                ep_text_content = text_of element\<rparr>,
                     sr_parent = None,
                     sr_index = (if numeric_path = [] then 0 else last numeric_path)\<rparr>])))
      | _ \<Rightarrow> [])"

text \<open>
  The loop shared by \<^verbatim>\<open>_search_with_predicate\<close>, \<^verbatim>\<open>_search_text_recursive\<close> and
  \<^verbatim>\<open>_search_recursive\<close>: \<^verbatim>\<open>for i, node in enumerate(nodes)\<close>, visit the node at
  \<^verbatim>\<open>path + [i]\<close>, then recurse into its \<^verbatim>\<open>content\<close> when that is a non-empty list.
  \<open>walk_nodes\<close> lists the visits in that order.
\<close>

fun walk_node :: "nat list \<Rightarrow> nat \<Rightarrow> node \<Rightarrow> (nat list \<times> nat \<times> node) list"
  and walk_nodes :: "nat list \<Rightarrow> nat \<Rightarrow> node list \<Rightarrow> (nat list \<times> nat \<times> node) list"
where
  "walk_node path i (Node t a c tx ms ex fs) =
     (path @ [i], i, Node t a c tx ms ex fs)
     # (case c of Some (x # xs) \<Rightarrow> walk_nodes (path @ [i]) 0 (x # xs) | _ \<Rightarrow> [])"
| "walk_node path i (Foreign j) = [(path @ [i], i, Foreign j)]"
| "walk_nodes path i [] = []"
| "walk_nodes path i (n # ns) = walk_node path i n @ walk_nodes path (Suc i) ns"

definition node_result :: "nat list \<times> nat \<times> node \<Rightarrow> search_result" where
  "node_result v =
     (case v of (current_path, i, n) \<Rightarrow>
        \<lparr>sr_node = PJson (dump_node False n),
         sr_path = \<lparr>ep_path = current_path, ep_type = node_type n,
                    ep_text_content = dump_text (node_text n)\<rparr>,
         sr_parent = None,
         sr_index = i\<rparr>)"

text \<open>The first exception of a predicate ends the walk; otherwise the matches are appended.\<close>

definition search_with_predicate ::
    "node list \<Rightarrow> nat list \<Rightarrow> (node \<Rightarrow> py_error + bool) \<Rightarrow> search_result list
     \<Rightarrow> py_error + search_result list" where
  "search_with_predicate nodes path predicate results =
     bind_err (sequence (map (\<lambda>v. bind_err (predicate (snd (snd v)))
                                   (\<lambda>b. Inr (if b then [node_result v] else [])))
                           (walk_nodes path 0 nodes)))
       (\<lambda>found. Inr (results @ concat found))"

definition has_text :: "node \<Rightarrow> bool" where
  "has_text n = (case node_text n of Some s \<Rightarrow> s \<noteq> [] | None \<Rightarrow> False)"

definition search_text_recursive ::
    "node list \<Rightarrow> nat list \<Rightarrow> (string \<Rightarrow> bool) \<Rightarrow> search_result list \<Rightarrow> search_result list" where
  "search_text_recursive nodes path text_predicate results =
     results @ map node_result
       (filter (\<lambda>v. has_text (snd (snd v)) \<and> text_predicate (the (node_text (snd (snd v)))))
          (walk_nodes path 0 nodes))"

text \<open>
  \<^verbatim>\<open>_search_by_text_content\<close> (case-insensitive): \<^verbatim>\<open>text_query.lower()\<close> exists only for
  a string; for any other query it raises \<^verbatim>\<open>AttributeError\<close>, before the walk.
\<close>

definition search_by_text_content :: "json \<Rightarrow> adf_document \<Rightarrow> py_error + search_result list" where
  "search_by_text_content text_query document =
     (case text_query of
        JStr q \<Rightarrow>
          Inr (search_text_recursive (dm_content (model document)) []
                 (\<lambda>node_text. contains (lower q) (lower node_text)) [])
      | _ \<Rightarrow> Inl AttributeError)"

text \<open>
  \<^verbatim>\<open>getattr(node, 'type', None) or (node.get('type') if isinstance(node, dict) else None)\<close>:
  the type of a model, \<^verbatim>\<open>None\<close> for any other element.
\<close>

definition type_attr :: "node \<Rightarrow> json" where
  "type_attr n = (if is_model n \<and> node_type n \<noteq> [] then JStr (node_type n) else JNull)"

text \<open>\<^verbatim>\<open>_search_by_node_type\<close>: \<^verbatim>\<open>node_type not in NODE_TYPES\<close> hashes the query first.\<close>

definition search_by_node_type :: "json \<Rightarrow> adf_document \<Rightarrow> py_error + search_result list" where
  "search_by_node_type wanted document =
     (if hashable wanted
      then search_with_predicate (dm_content (model document)) []
             (\<lambda>n. Inr (type_attr n = wanted)) []
      else Inl TypeError)"

text \<open>\<^verbatim>\<open>_search_by_attributes\<close>, with its guard for criteria that are not a dict.\<close>

definition node_attrs_or_empty :: "node \<Rightarrow> dict" where
  "node_attrs_or_empty n = (case node_attrs n of Some d \<Rightarrow> d | None \<Rightarrow> [])"

definition attributes_match :: "json \<Rightarrow> node \<Rightarrow> bool" where
  "attributes_match attributes n =
     (case attributes of
        JObj wanted \<Rightarrow>
          (let attrs = node_attrs_or_empty n in
           if attrs = [] then wanted = []
           else list_all (\<lambda>kv. py_eq (dict_get attrs (fst kv)) (snd kv)) wanted)
      | _ \<Rightarrow> False)"

definition search_by_attributes :: "json \<Rightarrow> adf_document \<Rightarrow> py_error + search_result list" where
  "search_by_attributes attributes document =
     search_with_predicate (dm_content (model document)) []
       (\<lambda>n. Inr (attributes_match attributes n)) []"

text \<open>
  \<^verbatim>\<open>_search_by_marks\<close>: \<^verbatim>\<open>all(mark_type in mark_types for mark_type in required_marks)\<close>
  iterates the criterion and hashes each element, stopping at the first one that is missing.
\<close>

definition node_marks_or_empty :: "node \<Rightarrow> mark list" where
  "node_marks_or_empty n = (case node_marks n of Some ms \<Rightarrow> ms | None \<Rightarrow> [])"

fun all_in :: "json list \<Rightarrow> string list \<Rightarrow> py_error + bool" where
  "all_in [] types = Inr True"
| "all_in (x # xs) types =
     (if \<not> hashable x then Inl TypeError
      else if x \<in> set (map JStr types) then all_in xs types
      else Inr False)"

definition marks_match :: "json \<Rightarrow> node \<Rightarrow> py_error + bool" where
  "marks_match required_marks n =
     (let marks = node_marks_or_empty n in
      if marks = [] then Inr (\<not> truthy required_marks)
      else bind_err (py_iter required_marks)
             (\<lambda>required. all_in required (filter (\<lambda>t. t \<noteq> []) (map mark_type marks))))"

definition search_by_marks :: "json \<Rightarrow> adf_document \<Rightarrow> py_error + search_result list" where
  "search_by_marks required_marks document =
     search_with_predicate (dm_content (model document)) [] (marks_match required_marks) []"

text \<open>
  \<^verbatim>\<open>_search_by_index\<close> with its default \<^verbatim>\<open>search_depth=1\<close>, the only depth the module
  uses: the comparison \<^verbatim>\<open>0 <= target_index < len(nodes)\<close> accepts an int (a bool is one)
  and raises \<^verbatim>\<open>TypeError\<close> for anything else.
\<close>

definition search_by_index :: "json \<Rightarrow> adf_document \<Rightarrow> py_error + search_result list" where
  "search_by_index target_index document =
     (let nodes = dm_content (model document) in
      (case (case target_index of JInt i \<Rightarrow> Some i | JBool b \<Rightarrow> Some (if b then 1 else 0) | _ \<Rightarrow> None) of
         None \<Rightarrow> Inl TypeError
       | Some i \<Rightarrow>
           if 0 \<le> i \<and> i < int (length nodes)
           then Inr [node_result ([nat i], nat i, nodes ! nat i)]
           else Inr []))"

text \<open>\<^verbatim>\<open>_node_matches_complex_criteria\<close>: each test runs only for a truthy criterion.\<close>

definition complex_text_check :: "dict \<Rightarrow> node \<Rightarrow> py_error + bool" where
  "complex_text_check criteria n =
     (if truthy (dict_get criteria ''text'') then
        (if \<not> has_text n then Inr False
         else (case dict_get criteria ''text'' of
                 JStr q \<Rightarrow> Inr (contains (lower q) (lower (the (node_text n))))
               | _ \<Rightarrow> Inl AttributeError))
      else Inr True)"

definition complex_type_check :: "dict \<Rightarrow> node \<Rightarrow> py_error + bool" where
  "complex_type_check criteria n =
     (if truthy (dict_get criteria ''node_type'')
      then Inr (type_attr n = dict_get criteria ''node_type'')
      else Inr True)"

definition complex_attrs_check :: "dict \<Rightarrow> node \<Rightarrow> py_error + bool" where
  "complex_attrs_check criteria n =
     (if truthy (dict_get criteria ''attributes'') then
        (case dict_get criteria ''attributes'' of
           JObj wanted \<Rightarrow>
             Inr (list_all (\<lambda>kv. py_eq (dict_get (node_attrs_or_empty n) (fst kv)) (snd kv)) wanted)
         | _ \<Rightarrow> Inl AttributeError)
      else Inr True)"

definition complex_marks_check :: "dict \<Rightarrow> node \<Rightarrow> py_error + bool" where
  "complex_marks_check criteria n =
     (if truthy (dict_get criteria ''marks'') then
        bind_err (py_iter (dict_get criteria ''marks''))
          (\<lambda>required. all_in required
             (filter (\<lambda>t. t \<noteq> []) (map mark_type (node_marks_or_empty n))))
      else Inr True)"

definition node_matches_complex_criteria :: "node \<Rightarrow> dict \<Rightarrow> py_error + bool" where
  "node_matches_complex_criteria n criteria =
     bind_err (complex_text_check criteria n) (\<lambda>b1. if \<not> b1 then Inr False else
     bind_err (complex_type_check criteria n) (\<lambda>b2. if \<not> b2 then Inr False else
     bind_err (complex_attrs_check criteria n) (\<lambda>b3. if \<not> b3 then Inr False else
     complex_marks_check criteria n)))"

definition search_recursive :: "dict \<Rightarrow> node list \<Rightarrow> nat list \<Rightarrow> py_error + search_result list" where
  "search_recursive criteria nodes path =
     search_with_predicate nodes path (\<lambda>n. node_matches_complex_criteria n criteria) []"

text \<open>
  The dispatch of \<^verbatim>\<open>find_elements\<close>: an \<^verbatim>\<open>if/elif\<close> chain on the truthiness of
  \<^verbatim>\<open>criteria.get(key)\<close>, except for \<^verbatim>\<open>index\<close>, which is tested against \<^verbatim>\<open>None\<close>.
\<close>

definition search_dispatch :: "dict \<Rightarrow> adf_document \<Rightarrow> py_error + search_result list" where
  "search_dispatch criteria target_document =
     (if truthy (dict_get criteria ''json_path'')
      then Inr (search_by_json_path (dict_get criteria ''json_path'') target_document)
      else if truthy (dict_get criteria ''text'')
      then search_by_text_content (dict_get criteria ''text'') target_document
      else if truthy (dict_get criteria ''node_type'')
      then search_by_node_type (dict_get criteria ''node_type'') target_document
      else if truthy (dict_get criteria ''attributes'')
      then search_by_attributes (dict_get criteria ''attributes'') target_document
      else if truthy (dict_get criteria ''marks'')
      then search_by_marks (dict_get criteria ''marks'') target_document
      else if dict_get criteria ''index'' \<noteq> JNull
      then search_by_index (dict_get criteria ''index'') target_document
      else search_recursive criteria (dm_content (model target_document)) [])"

text \<open>
  \<^verbatim>\<open>_add_context_to_results\<close>: a result deeper than the top level gets the dump of the
  node at \<^verbatim>\<open>path[:-1]\<close>; only \<^verbatim>\<open>IndexError\<close> and \<^verbatim>\<open>AttributeError\<close> are passed over.
\<close>

definition add_context :: "adf_document \<Rightarrow> search_result \<Rightarrow> py_error + search_result" where
  "add_context document r =
     (let path = ep_path (sr_path r) in
      if length path > 1 then
        (case get_node_by_path document (butlast path) of
           Inl e \<Rightarrow> Inl e
         | Inr None \<Rightarrow> Inr r
         | Inr (Some parent) \<Rightarrow>
             Inr (if element_truthy parent then r\<lparr>sr_parent := Some (dump_node False parent)\<rparr>
                  else r))
      else Inr r)"

definition add_context_to_results ::
    "search_result list \<Rightarrow> adf_document \<Rightarrow> py_error + search_result list" where
  "add_context_to_results results document = sequence (map (add_context document) results)"

text \<open>\<^verbatim>\<open>_sort_search_results\<close>: a stable sort on (path depth, no text).\<close>

definition sort_key_of :: "search_result \<Rightarrow> nat \<times> bool" where
  "sort_key_of r = (length (ep_path (sr_path r)), \<not> truthy (ep_text_content (sr_path r)))"

definition sort_search_results :: "search_result list \<Rightarrow> search_result list" where
  "sort_search_results results = sort_key sort_key_of results"

text \<open>\<^verbatim>\<open>xs[:limit]\<close>, where a negative limit counts from the end.\<close>

definition py_take :: "int \<Rightarrow> 'a list \<Rightarrow> 'a list" where
  "py_take limit xs = (if 0 \<le> limit then take (nat limit) xs else take (length xs - nat (- limit)) xs)"

record finder =
  fd_document :: "adf_document option"
  search_cache :: "(string \<times> search_result list) list"

text \<open>
  \<^verbatim>\<open>find_elements\<close>.  The cache key is built with Python's \<^verbatim>\<open>hash\<close>, so it is a parameter:
  \<open>cache_key\<close> is \<^verbatim>\<open>_generate_cache_key\<close>.
\<close>

definition find_elements ::
    "(dict \<Rightarrow> int option \<Rightarrow> string) \<Rightarrow> finder \<Rightarrow> dict \<Rightarrow> adf_document option \<Rightarrow> int option
     \<Rightarrow> bool \<Rightarrow> bool \<Rightarrow> (py_error + search_result list) \<times> finder" where
  "find_elements cache_key self criteria document limit include_context cache_results =
     (if criteria = [] then (Inl (ValueError ''Search criteria are required''), self)
      else
        (case (case document of Some d \<Rightarrow> Some d | None \<Rightarrow> fd_document self) of
           None \<Rightarrow> (Inl (ValueError ''ADF document is required for search''), self)
         | Some target_document \<Rightarrow>
             (let key = cache_key criteria limit;
                  use_limit = (case limit of Some l \<Rightarrow> l \<noteq> 0 | None \<Rightarrow> False)
              in if cache_results \<and> has_key (search_cache self) key then
                   (case map_of (search_cache self) key of
                      Some cached \<Rightarrow> (Inr (if use_limit then py_take (the limit) cached else cached), self)
                    | None \<Rightarrow> (Inr [], self))
                 else
                   (case bind_err (search_dispatch criteria target_document)
                           (\<lambda>results. if include_context
                                       then add_context_to_results results target_document
                                       else Inr results) of
                      Inl e \<Rightarrow> (Inl e, self)
                    | Inr results \<Rightarrow>
                        (let sorted = sort_search_results results;
                             limited = (if use_limit \<and> int (length sorted) > the limit
                                        then py_take (the limit) sorted else sorted)
                         in (Inr limited,
                             if cache_results
                             then self\<lparr>search_cache := dict_set (search_cache self) key limited\<rparr>
                             else self))))))"

text \<open>The module-level \<^verbatim>\<open>find_element_in_adf\<close> searches with a fresh finder.\<close>

definition find_element_in_adf ::
    "(dict \<Rightarrow> int option \<Rightarrow> string) \<Rightarrow> adf_document \<Rightarrow> dict \<Rightarrow> int option \<Rightarrow> bool
     \<Rightarrow> py_error + search_result list" where
  "find_element_in_adf cache_key adf_document criteria limit include_context =
     fst (find_elements cache_key \<lparr>fd_document = Some adf_document, search_cache = []\<rparr>
            criteria None limit include_context True)"


section \<open>The validator (validator.py)\<close>

text \<open>
  The validator keeps its findings and its depth counter in the object; every method
  takes that state and returns it.  A message is a fixed text, a text with a value
  formatted into it, or the text of an exception.
\<close>

datatype vmessage = Text string | Format string json | Failure py_error

record verror =
  ve_path :: "nat list"
  ve_message :: vmessage
  ve_severity :: string

record validator =
  errors :: "verror list"
  warnings :: "verror list"
  current_depth :: nat

type_synonym 'a validation = "validator \<Rightarrow> (py_error + 'a) \<times> validator"

definition max_depth_exceeded :: vmessage where
  "max_depth_exceeded = Text ''Maximum nesting depth (20) exceeded''"

definition add_error :: "nat list \<Rightarrow> vmessage \<Rightarrow> validator \<Rightarrow> validator" where
  "add_error path message st =
     st\<lparr>errors := errors st @ [\<lparr>ve_path = path, ve_message = message, ve_severity = ''error''\<rparr>]\<rparr>"

definition add_warning :: "nat list \<Rightarrow> vmessage \<Rightarrow> validator \<Rightarrow> validator" where
  "add_warning path message st =
     st\<lparr>warnings := warnings st @ [\<lparr>ve_path = path, ve_message = message, ve_severity = ''warning''\<rparr>]\<rparr>"

text \<open>The three ways a check ends: an error is recorded, the check passes, or it raises.\<close>

definition failed :: "nat list \<Rightarrow> vmessage \<Rightarrow> bool validation" where
  "failed path message st = (Inr False, add_error path message st)"

definition passed :: "bool validation" where
  "passed st = (Inr True, st)"

definition raised :: "py_error \<Rightarrow> bool validation" where
  "raised e st = (Inl e, st)"

definition reset_validation_state :: "validator \<Rightarrow> validator" where
  "reset_validation_state st = \<lparr>errors = [], warnings = [], current_depth = 0\<rparr>"

definition is_hex_digit :: "char \<Rightarrow> bool" where
  "is_hex_digit c = (c \<in> set ''0123456789abcdefABCDEF'')"

definition validate_color_value :: "json \<Rightarrow> bool" where
  "validate_color_value color =
     (case color of
        JStr s \<Rightarrow>
          if starts_with ''#'' s
          then (length s = 4 \<or> length s = 7) \<and> list_all is_hex_digit (tl s)
          else s \<in> set CONFLUENCE_COLORS
      | _ \<Rightarrow> False)"

definition validate_node_specific_attrs :: "dict \<Rightarrow> nat list \<Rightarrow> bool validation" where
  "validate_node_specific_attrs attrs path =
     (if has_key attrs ''backgroundColor'' \<and> \<not> validate_color_value (dict_get attrs ''backgroundColor'')
      then failed path (Format ''Invalid color value: {}'' (dict_get attrs ''backgroundColor''))
      else if has_key attrs ''textColor'' \<and> \<not> validate_color_value (dict_get attrs ''textColor'')
      then failed path (Format ''Invalid color value: {}'' (dict_get attrs ''textColor''))
      else passed)"

definition validate_attributes :: "json \<Rightarrow> nat list \<Rightarrow> bool validation" where
  "validate_attributes attrs path st =
     (case attrs of
        JObj d \<Rightarrow>
          validate_node_specific_attrs d path
            (if length d > MAX_ATTRS_PER_NODE
             then add_warning path (Format ''Node has many attributes ({}), consider simplifying''
                                      (JInt (int (length d)))) st
             else st)
      | _ \<Rightarrow> failed path (Text ''Attributes must be a dictionary'') st)"

text \<open>
  \<^verbatim>\<open>_validate_mark_attributes\<close>: \<^verbatim>\<open>attrs = mark.get("attrs", {})\<close> is read with
  \<^verbatim>\<open>attrs.get\<close>, which only a dict has.
\<close>

definition validate_mark_attributes :: "dict \<Rightarrow> nat list \<Rightarrow> bool validation" where
  "validate_mark_attributes mark path =
     (let mark_type = dict_get mark ''type'';
          attrs = (case map_of mark ''attrs'' of None \<Rightarrow> JObj [] | Some v \<Rightarrow> v)
      in if mark_type = JStr ''textColor'' \<or> mark_type = JStr ''backgroundColor'' then
           (case attrs of
              JObj a \<Rightarrow>
                if truthy (dict_get a ''color'') \<and> \<not> validate_color_value (dict_get a ''color'')
                then failed path (Format ''Invalid color value: {}'' (dict_get a ''color''))
                else passed
            | _ \<Rightarrow> raised AttributeError)
         else if mark_type = JStr ''link'' then
           (case attrs of
              JObj a \<Rightarrow>
                if \<not> truthy (dict_get a ''href'')
                then failed path (Text ''Link mark missing required 'href' attribute'')
                else passed
            | _ \<Rightarrow> raised AttributeError)
         else passed)"

definition validate_one_mark :: "json \<Rightarrow> nat list \<Rightarrow> bool validation" where
  "validate_one_mark mark path =
     (case mark of
        JObj m \<Rightarrow>
          (let mark_type = dict_get m ''type'' in
           if \<not> truthy mark_type then failed path (Text ''Mark missing required 'type' field'')
           else if \<not> hashable mark_type then raised TypeError
           else if mark_type \<notin> set (map JStr MARK_TYPES)
           then failed path (Format ''Unknown mark type: {}'' mark_type)
           else validate_mark_attributes m path)
      | _ \<Rightarrow> failed path (Text ''Mark must be a dictionary''))"

text \<open>The loop of \<^verbatim>\<open>_validate_marks\<close> returns at the first mark that fails.\<close>

fun validate_marks_loop :: "json list \<Rightarrow> nat list \<Rightarrow> bool validation" where
  "validate_marks_loop [] path st = (Inr True, st)"
| "validate_marks_loop (mark # marks) path st =
     (case validate_one_mark mark path st of
        (Inl e, st') \<Rightarrow> (Inl e, st')
      | (Inr False, st') \<Rightarrow> (Inr False, st')
      | (Inr True, st') \<Rightarrow> validate_marks_loop marks path st')"

definition validate_marks :: "json \<Rightarrow> nat list \<Rightarrow> bool validation" where
  "validate_marks marks path =
     (case marks of
        JArr ms \<Rightarrow> validate_marks_loop ms path
      | _ \<Rightarrow> failed path (Text ''Marks must be an array''))"

definition validate_text_content :: "json \<Rightarrow> nat list \<Rightarrow> bool validation" where
  "validate_text_content text_value path st =
     (case text_value of
        JStr s \<Rightarrow>
          (Inr True,
           if length s > MAX_TEXT_LENGTH
           then add_warning path (Format ''Text content is very long ({} chars)'' (JInt (int (length s)))) st
           else st)
      | _ \<Rightarrow> failed path (Text ''Text content must be a string'') st)"

text \<open>\<^verbatim>\<open>node.get("attrs", {})\<close> followed by \<^verbatim>\<open>attrs.get(key)\<close>.\<close>

definition attrs_get :: "dict \<Rightarrow> string \<Rightarrow> py_error + json" where
  "attrs_get node key =
     (case (case map_of node ''attrs'' of None \<Rightarrow> JObj [] | Some v \<Rightarrow> v) of
        JObj a \<Rightarrow> Inr (dict_get a key)
      | _ \<Rightarrow> Inl AttributeError)"

definition validate_heading_node :: "dict \<Rightarrow> nat list \<Rightarrow> bool validation" where
  "validate_heading_node node path =
     (case attrs_get node ''level'' of
        Inl e \<Rightarrow> raised e
      | Inr JNull \<Rightarrow> failed path (Text ''Heading node missing required 'level' attribute'')
      | Inr (JInt i) \<Rightarrow>
          if 1 \<le> i \<and> i \<le> 6 then passed
          else failed path (Text ''Heading level must be integer between 1 and 6'')
      | Inr (JBool b) \<Rightarrow>
          if b then passed
          else failed path (Text ''Heading level must be integer between 1 and 6'')
      | Inr _ \<Rightarrow> failed path (Text ''Heading level must be integer between 1 and 6''))"

definition validate_panel_node :: "dict \<Rightarrow> nat list \<Rightarrow> bool validation" where
  "validate_panel_node node path =
     (case attrs_get node ''panelType'' of
        Inl e \<Rightarrow> raised e
      | Inr JNull \<Rightarrow> failed path (Text ''Panel node missing required 'panelType' attribute'')
      | Inr panel_type \<Rightarrow>
          if \<not> hashable panel_type then raised TypeError
          else if panel_type \<notin> set (map JStr PANEL_TYPES)
          then failed path (Format ''Invalid panel type: {}'' panel_type)
          else passed)"

text \<open>The two loops of \<^verbatim>\<open>_validate_table_node\<close>, over the rows and over the cells of a row.\<close>

fun validate_table_cells :: "json list \<Rightarrow> nat list \<Rightarrow> nat \<Rightarrow> bool validation" where
  "validate_table_cells [] row_path j = passed"
| "validate_table_cells (cell # cells) row_path j =
     (case cell of
        JObj c \<Rightarrow>
          if dict_get c ''type'' = JStr ''tableCell'' \<or> dict_get c ''type'' = JStr ''tableHeader''
          then validate_table_cells cells row_path (Suc j)
          else failed (row_path @ [j]) (Format ''Invalid table cell type: {}'' (dict_get c ''type''))
      | _ \<Rightarrow> failed (row_path @ [j]) (Text ''Table cell must be dictionary''))"

fun validate_table_rows :: "json list \<Rightarrow> nat list \<Rightarrow> nat \<Rightarrow> bool validation" where
  "validate_table_rows [] path i st = (Inr True, st)"
| "validate_table_rows (row # rows) path i st =
     (case row of
        JObj r \<Rightarrow>
          if dict_get r ''type'' \<noteq> JStr ''tableRow''
          then failed (path @ [i]) (Text ''Table content must be tableRow nodes'') st
          else
            (case py_iter (case map_of r ''content'' of None \<Rightarrow> JArr [] | Some v \<Rightarrow> v) of
               Inl e \<Rightarrow> (Inl e, st)
             | Inr cells \<Rightarrow>
                 (case validate_table_cells cells (path @ [i]) 0 st of
                    (Inl e, st') \<Rightarrow> (Inl e, st')
                  | (Inr False, st') \<Rightarrow> (Inr False, st')
                  | (Inr True, st') \<Rightarrow> validate_table_rows rows path (Suc i) st'))
      | _ \<Rightarrow> failed (path @ [i]) (Text ''Table content must be tableRow nodes'') st)"

definition validate_table_node :: "dict \<Rightarrow> nat list \<Rightarrow> bool validation" where
  "validate_table_node node path st =
     (let content = (case map_of node ''content'' of None \<Rightarrow> JArr [] | Some v \<Rightarrow> v) in
      if \<not> truthy content then (Inr True, add_warning path (Text ''Empty table'') st)
      else (case py_iter content of
              Inl e \<Rightarrow> (Inl e, st)
            | Inr rows \<Rightarrow> validate_table_rows rows path 0 st))"

text \<open>\<^verbatim>\<open>key not in attrs\<close>, for whatever \<^verbatim>\<open>attrs\<close> is.\<close>

definition py_contains :: "json \<Rightarrow> string \<Rightarrow> py_error + bool" where
  "py_contains container key =
     (case container of
        JObj d \<Rightarrow> Inr (has_key d key)
      | JArr xs \<Rightarrow> Inr (JStr key \<in> set xs)
      | JStr s \<Rightarrow> Inr (contains key s)
      | _ \<Rightarrow> Inl TypeError)"

definition validate_extension_node :: "dict \<Rightarrow> nat list \<Rightarrow> bool validation" where
  "validate_extension_node node path =
     (let attrs = (case map_of node ''attrs'' of None \<Rightarrow> JObj [] | Some v \<Rightarrow> v) in
      (case py_contains attrs ''extensionType'' of
         Inl e \<Rightarrow> raised e
       | Inr False \<Rightarrow> failed path (Text ''Extension missing required 'extensionType' attribute'')
       | Inr True \<Rightarrow>
           (case py_contains attrs ''extensionKey'' of
              Inl e \<Rightarrow> raised e
            | Inr False \<Rightarrow> failed path (Text ''Extension missing required 'extensionKey' attribute'')
            | Inr True \<Rightarrow> passed)))"

definition validate_node_specific :: "dict \<Rightarrow> nat list \<Rightarrow> bool validation" where
  "validate_node_specific node path =
     (let node_type = dict_get node ''type'' in
      if node_type = JStr ''heading'' then validate_heading_node node path
      else if node_type = JStr ''panel'' then validate_panel_node node path
      else if node_type = JStr ''table'' then validate_table_node node path
      else if node_type \<in> set (map JStr [''extension'', ''bodiedExtension'', ''inlineExtension''])
      then validate_extension_node node path
      else passed)"

text \<open>
  One step of \<^verbatim>\<open>_validate_node_structure\<close>: run a check when its key is present and
  fold its outcome into \<^verbatim>\<open>all_valid\<close>; an exception ends the method.
\<close>

definition and_then :: "bool validation \<Rightarrow> bool validation \<Rightarrow> bool validation" where
  "and_then first second st =
     (case first st of
        (Inl e, st') \<Rightarrow> (Inl e, st')
      | (Inr a, st') \<Rightarrow>
          (case second st' of
             (Inl e, st'') \<Rightarrow> (Inl e, st'')
           | (Inr b, st'') \<Rightarrow> (Inr (a \<and> b), st'')))"

definition when_present :: "dict \<Rightarrow> string \<Rightarrow> (json \<Rightarrow> bool validation) \<Rightarrow> bool validation" where
  "when_present node key check = (if has_key node key then check (dict_get node key) else passed)"

definition structure_before_content :: "dict \<Rightarrow> nat list \<Rightarrow> bool validation" where
  "structure_before_content node path =
     and_then (when_present node ''attrs'' (\<lambda>v. validate_attributes v path))
       (and_then (when_present node ''marks'' (\<lambda>v. validate_marks v path))
          (when_present node ''text'' (\<lambda>v. validate_text_content v path)))"

text \<open>
  The recursion: \<^verbatim>\<open>validate_node\<close>, \<^verbatim>\<open>_validate_node_structure\<close>,
  \<^verbatim>\<open>_validate_content_array\<close> and the loop of the latter over the nodes of the array.
  The depth test runs before the counter is incremented, and the counter is decremented
  only when the loop returns.
\<close>

function validate_node :: "json \<Rightarrow> nat list \<Rightarrow> bool validation"
  and validate_node_structure :: "dict \<Rightarrow> nat list \<Rightarrow> bool validation"
  and validate_content_array :: "json \<Rightarrow> nat list \<Rightarrow> bool validation"
  and validate_nodes :: "json list \<Rightarrow> nat list \<Rightarrow> nat \<Rightarrow> bool validation"
where
  "validate_node node path st =
     (case node of
        JObj kvs \<Rightarrow>
          (let node_type = dict_get kvs ''type'' in
           if \<not> truthy node_type then failed path (Text ''Node missing required 'type' field'') st
           else if \<not> hashable node_type then raised TypeError st
           else if node_type \<notin> set (map JStr NODE_TYPES)
           then failed path (Format ''Unknown node type: {}'' node_type) st
           else (case validate_node_structure kvs path st of
                   (Inl e, st') \<Rightarrow> (Inl e, st')
                 | (Inr all_valid, st') \<Rightarrow> (Inr (length (errors st') = 0), st')))
      | _ \<Rightarrow> failed path (Text ''Node must be a dictionary'') st)"
| "validate_node_structure kvs path st =
     (case structure_before_content kvs path st of
        (Inl e, st1) \<Rightarrow> (Inl e, st1)
      | (Inr v1, st1) \<Rightarrow>
          (case (case map_of kvs ''content'' of
                   Some c \<Rightarrow> validate_content_array c path st1
                 | None \<Rightarrow> (Inr True, st1)) of
             (Inl e, st2) \<Rightarrow> (Inl e, st2)
           | (Inr v2, st2) \<Rightarrow>
               (case validate_node_specific kvs path st2 of
                  (Inl e, st3) \<Rightarrow> (Inl e, st3)
                | (Inr v3, st3) \<Rightarrow> (Inr (v1 \<and> v2 \<and> v3), st3))))"
| "validate_content_array content path st =
     (case content of
        JArr xs \<Rightarrow>
          if current_depth st > MAX_DEPTH then failed path max_depth_exceeded st
          else
            (case validate_nodes xs path 0 (st\<lparr>current_depth := current_depth st + 1\<rparr>) of
               (Inl e, st') \<Rightarrow> (Inl e, st')
             | (Inr all_valid, st') \<Rightarrow> (Inr all_valid, st'\<lparr>current_depth := current_depth st' - 1\<rparr>))
      | _ \<Rightarrow> failed path (Text ''Content must be an array'') st)"
| "validate_nodes [] path i st = (Inr True, st)"
| "validate_nodes (n # ns) path i st =
     (case validate_node n (path @ [i]) st of
        (Inl e, st') \<Rightarrow> (Inl e, st')
      | (Inr valid, st') \<Rightarrow>
          (case validate_nodes ns path (Suc i) st' of
             (Inl e, st'') \<Rightarrow> (Inl e, st'')
           | (Inr all_valid, st'') \<Rightarrow> (Inr (valid \<and> all_valid), st'')))"
  by pat_completeness auto
termination
  apply (relation "measure (\<lambda>call. case call of
          Inl (Inl (n, p, st)) \<Rightarrow> 2 * size n + 2
        | Inl (Inr (kvs, p, st)) \<Rightarrow> 2 * size (JObj kvs) + 1
        | Inr (Inl (c, p, st)) \<Rightarrow> 2 * size c + 2
        | Inr (Inr (ns, p, i, st)) \<Rightarrow> 2 * size_list size ns + 3)")
       apply simp_all
  subgoal premises prems for kvs path st x y b x2
  proof -
    from prems(3) have "size x2 \<le> size_list (size_prod (\<lambda>_. 0) size) kvs"
      by (induction kvs) (force split: if_splits simp: le_SucI trans_le_add2)+
    then show ?thesis by simp
  qed
  done

text \<open>The checks of \<^verbatim>\<open>validate_document\<close> on the root, each of which ends the validation.\<close>

definition validate_root_structure :: "json \<Rightarrow> bool validation" where
  "validate_root_structure document =
     (case document of
        JObj d \<Rightarrow>
          if \<not> has_key d ''version'' then failed [] (Format ''Missing required field: {}'' (JStr ''version''))
          else if \<not> has_key d ''type'' then failed [] (Format ''Missing required field: {}'' (JStr ''type''))
          else if \<not> has_key d ''content'' then failed [] (Format ''Missing required field: {}'' (JStr ''content''))
          else passed
      | _ \<Rightarrow> failed [] (Text ''Document must be a dictionary''))"

definition validate_version :: "json \<Rightarrow> bool validation" where
  "validate_version version =
     (if py_eq version (JInt ADF_VERSION) then passed else failed [] (Text ''ADF version must be 1''))"

definition validate_document_type :: "json \<Rightarrow> bool validation" where
  "validate_document_type doc_type =
     (if doc_type = JStr ADF_DOCUMENT_TYPE then passed
      else failed [] (Text (''Root node must be of type 'doc'' @ [CHR 0x27])))"

text \<open>
  The body of the \<^verbatim>\<open>try\<close> of \<^verbatim>\<open>validate_document\<close>: it returns whether the error list is
  empty, or raises.
\<close>

definition document_checks :: "json \<Rightarrow> bool validation" where
  "document_checks document st =
     (case validate_root_structure document st of
        (Inl e, st1) \<Rightarrow> (Inl e, st1)
      | (Inr False, st1) \<Rightarrow> (Inr (length (errors st1) = 0), st1)
      | (Inr True, st1) \<Rightarrow>
          (case document of
             JObj d \<Rightarrow>
               (case validate_version (dict_get d ''version'') st1 of
                  (Inl e, st2) \<Rightarrow> (Inl e, st2)
                | (Inr False, st2) \<Rightarrow> (Inr (length (errors st2) = 0), st2)
                | (Inr True, st2) \<Rightarrow>
                    (case validate_document_type (dict_get d ''type'') st2 of
                       (Inl e, st3) \<Rightarrow> (Inl e, st3)
                     | (Inr False, st3) \<Rightarrow> (Inr (length (errors st3) = 0), st3)
                     | (Inr True, st3) \<Rightarrow>
                         (case validate_content_array
                                 (case map_of d ''content'' of None \<Rightarrow> JArr [] | Some v \<Rightarrow> v) [] st3 of
                            (Inl e, st4) \<Rightarrow> (Inl e, st4)
                          | (Inr v, st4) \<Rightarrow> (Inr (length (errors st4) = 0), st4))))
           | _ \<Rightarrow> (Inr (length (errors st1) = 0), st1)))"

text \<open>\<^verbatim>\<open>validate_document\<close>: reset, run the checks, and turn any exception into an error.\<close>

definition validate_document :: "json \<Rightarrow> validator \<Rightarrow> bool \<times> validator" where
  "validate_document document st =
     (case document_checks document (reset_validation_state st) of
        (Inl e, st') \<Rightarrow> (False, add_error [] (Failure e) st')
      | (Inr valid, st') \<Rightarrow> (valid, st'))"


section \<open>The writer (writer.py)\<close>

text \<open>
  An \<^verbatim>\<open>UpdateOperation\<close>.  The constructor accepts the six operation types and raises
  \<^verbatim>\<open>ValueError\<close> for any other.
\<close>

record update_operation =
  operation_type :: string
  target_criteria :: dict
  new_content :: json
  preserve_attributes :: bool
  preserve_marks :: bool
  kwargs :: dict

definition valid_operation_types :: "string list" where
  "valid_operation_types =
     [''replace'', ''modify'', ''insert_before'', ''insert_after'', ''delete'', ''update_text'']"

definition UpdateOperation_init ::
    "string \<Rightarrow> dict \<Rightarrow> json \<Rightarrow> bool \<Rightarrow> bool \<Rightarrow> dict \<Rightarrow> py_error + update_operation" where
  "UpdateOperation_init op_type criteria content keep_attrs keep_marks kw =
     (if op_type \<notin> set valid_operation_types
      then Inl (ValueError (''Unknown operation type: '' @ op_type))
      else Inr \<lparr>operation_type = op_type, target_criteria = criteria, new_content = content,
                preserve_attributes = keep_attrs, preserve_marks = keep_marks, kwargs = kw\<rparr>)"

text \<open>\<^verbatim>\<open>d.get(k, default)\<close>.\<close>

definition get_or :: "dict \<Rightarrow> string \<Rightarrow> json \<Rightarrow> json" where
  "get_or d k fallback = (case map_of d k of None \<Rightarrow> fallback | Some v \<Rightarrow> v)"

text \<open>
  The element of a search result is a dict when it is the dump of a node or mark model, or a
  decoded JSON object reached through an extra key.
\<close>

definition as_dict :: "pyval \<Rightarrow> dict option" where
  "as_dict v = (case v of PJson (JObj d) \<Rightarrow> Some d | _ \<Rightarrow> None)"

text \<open>
  The first half of \<^verbatim>\<open>_apply_replace_operation\<close>, on the copy of the new content:
  \<^verbatim>\<open>{**original_attrs, **new_element.get("attrs", {})}\<close> needs two mappings and raises
  \<^verbatim>\<open>TypeError\<close> otherwise.
\<close>

definition merge_preserved_attrs :: "dict \<Rightarrow> json \<Rightarrow> py_error + json" where
  "merge_preserved_attrs original_element new_element =
     (let original_attrs = get_or original_element ''attrs'' (JObj []) in
      case new_element of
        JObj ne \<Rightarrow>
          if truthy original_attrs then
            (case original_attrs of
               JObj oa \<Rightarrow>
                 (case get_or ne ''attrs'' (JObj []) of
                    JObj na \<Rightarrow> Inr (JObj (dict_set ne ''attrs'' (JObj (dict_merge oa na))))
                  | _ \<Rightarrow> Inl TypeError)
             | _ \<Rightarrow> Inl TypeError)
          else Inr new_element
      | _ \<Rightarrow> Inr new_element)"

text \<open>
  \<^verbatim>\<open>{mark.get("type") for mark in new_element.get("marks", [])}\<close>: every element must
  have a \<^verbatim>\<open>get\<close> and a hashable type.
\<close>

fun mark_types_of :: "json list \<Rightarrow> py_error + json list" where
  "mark_types_of [] = Inr []"
| "mark_types_of (m # ms) =
     (case m of
        JObj d \<Rightarrow>
          if hashable (dict_get d ''type'')
          then bind_err (mark_types_of ms) (\<lambda>ts. Inr (dict_get d ''type'' # ts))
          else Inl TypeError
      | _ \<Rightarrow> Inl AttributeError)"

text \<open>
  The loop \<^verbatim>\<open>for mark in original_marks\<close>: a mark whose type is not in the set computed
  before the loop is appended to \<^verbatim>\<open>new_element["marks"]\<close>, which must be a list.
\<close>

fun append_missing_marks :: "json list \<Rightarrow> json list \<Rightarrow> json \<Rightarrow> py_error + json" where
  "append_missing_marks [] existing_mark_types marks = Inr marks"
| "append_missing_marks (m # ms) existing_mark_types marks =
     (case m of
        JObj d \<Rightarrow>
          if \<not> hashable (dict_get d ''type'') then Inl TypeError
          else if list_ex (py_eq (dict_get d ''type'')) existing_mark_types
          then append_missing_marks ms existing_mark_types marks
          else (case marks of
                  JArr xs \<Rightarrow> append_missing_marks ms existing_mark_types (JArr (xs @ [m]))
                | _ \<Rightarrow> Inl AttributeError)
      | _ \<Rightarrow> Inl AttributeError)"

definition merge_preserved_marks :: "dict \<Rightarrow> json \<Rightarrow> py_error + json" where
  "merge_preserved_marks original_element new_element =
     (let original_marks = get_or original_element ''marks'' (JArr []) in
      case new_element of
        JObj ne \<Rightarrow>
          if truthy original_marks \<and> dict_get ne ''type'' = JStr ''text'' then
            (let marks = get_or ne ''marks'' (JArr []) in
             bind_err (py_iter marks) (\<lambda>new_marks.
             bind_err (mark_types_of new_marks) (\<lambda>existing_mark_types.
             bind_err (py_iter original_marks) (\<lambda>originals.
             bind_err (append_missing_marks originals existing_mark_types marks) (\<lambda>merged.
             Inr (JObj (dict_set ne ''marks'' merged)))))))
          else Inr new_element
      | _ \<Rightarrow> Inr new_element)"

text \<open>The element that \<^verbatim>\<open>_apply_replace_operation\<close> hands to the document.\<close>

definition preserved_element :: "update_operation \<Rightarrow> pyval \<Rightarrow> py_error + json" where
  "preserved_element operation original_element =
     bind_err
       (case as_dict original_element of
          Some original \<Rightarrow>
            if preserve_attributes operation
            then merge_preserved_attrs original (new_content operation)
            else Inr (new_content operation)
        | None \<Rightarrow> Inr (new_content operation))
       (\<lambda>new_element.
          case as_dict original_element of
            Some original \<Rightarrow>
              if preserve_marks operation
              then merge_preserved_marks original new_element
              else Inr new_element
          | None \<Rightarrow> Inr new_element)"

definition apply_replace_operation ::
    "adf_document \<Rightarrow> search_result \<Rightarrow> update_operation \<Rightarrow> (py_error + nat) \<times> adf_document" where
  "apply_replace_operation adf_document element_result operation =
     (case preserved_element operation (sr_node element_result) of
        Inl e \<Rightarrow> (Inl e, adf_document)
      | Inr new_element \<Rightarrow>
          (case replace_element_at_path adf_document (ep_path (sr_path element_result)) new_element of
             (Inl e, d) \<Rightarrow> (Inl e, d)
           | (Inr success, d) \<Rightarrow> (Inr (if success then 1 else 0), d)))"

text \<open>
  Assignment to an attribute of a node model.  The models validate assignments: a declared
  field takes the value its type admits (and joins \<^verbatim>\<open>model_fields_set\<close>), any other name
  becomes an extra key.
\<close>

definition field_set :: "string list \<Rightarrow> string \<Rightarrow> string list" where
  "field_set fs key = (if key \<in> set fs then fs else fs @ [key])"

definition node_setattr :: "node \<Rightarrow> string \<Rightarrow> json \<Rightarrow> py_error + node" where
  "node_setattr n key v =
     (case n of
        Foreign j \<Rightarrow> Inl AttributeError
      | Node t a c tx ms ex fs \<Rightarrow>
        if key = ''type'' then
          bind_err (validate_type_field NODE_TYPES (Some v))
            (\<lambda>t'. Inr (Node t' a c tx ms ex (field_set fs key)))
        else if key = ''attrs'' then
          bind_err (validate_attrs_field (Some v))
            (\<lambda>a'. Inr (Node t a' c tx ms ex (field_set fs key)))
        else if key = ''content'' then
          bind_err (validate_content_field (Some v)
                      (sequence (map node_model_validate (case v of JArr xs \<Rightarrow> xs | _ \<Rightarrow> []))))
            (\<lambda>c'. Inr (Node t a c' tx ms ex (field_set fs key)))
        else if key = ''text'' then
          bind_err (validate_text_field (Some v))
            (\<lambda>tx'. Inr (Node t a c tx' ms ex (field_set fs key)))
        else if key = ''marks'' then
          bind_err (validate_marks_field (Some v))
            (\<lambda>ms'. Inr (Node t a c tx ms' ex (field_set fs key)))
        else Inr (Node t a c tx ms (dict_set ex key v) fs))"

text \<open>
  The node that \<^verbatim>\<open>_get_node_by_path\<close> returns is the object inside the tree; a caller that
  assigns to it changes the tree.  \<open>set_node_at_path\<close> writes the changed node back where
  \<^verbatim>\<open>_get_node_by_path\<close> found it.
\<close>

fun set_node_at_path :: "node list \<Rightarrow> nat list \<Rightarrow> node \<Rightarrow> node list" where
  "set_node_at_path current [] n = current"
| "set_node_at_path current [index] n = current[index := n]"
| "set_node_at_path current (index # rest) n =
     (if index < length current then
        (case node_content (current ! index) of
           Some c \<Rightarrow> current[index := set_node_content (current ! index)
                                        (Some (set_node_at_path c rest n))]
         | None \<Rightarrow> current)
      else current)"

text \<open>
  \<^verbatim>\<open>_apply_modify_operation\<close>: \<^verbatim>\<open>hasattr(current_element, key)\<close> holds for the declared
  fields and the extra keys of a node model (the methods every Python object carries are
  not counted here); an assignment that fails ends the loop and keeps the assignments made
  before it.
\<close>

fun apply_modifications :: "node \<Rightarrow> dict \<Rightarrow> (py_error + unit) \<times> node" where
  "apply_modifications n [] = (Inr (), n)"
| "apply_modifications n ((key, v) # rest) =
     (if is_model n \<and> (key \<in> set node_fields \<or> has_key (node_extra n) key) then
        (case node_setattr n key v of
           Inl e \<Rightarrow> (Inl e, n)
         | Inr n' \<Rightarrow> apply_modifications n' rest)
      else apply_modifications n rest)"

definition apply_modify_operation ::
    "adf_document \<Rightarrow> search_result \<Rightarrow> update_operation \<Rightarrow> (py_error + nat) \<times> adf_document" where
  "apply_modify_operation adf_document element_result operation =
     (let path = ep_path (sr_path element_result) in
      case get_element_at_path adf_document path of
        Inl e \<Rightarrow> (Inl e, adf_document)
      | Inr None \<Rightarrow> (Inr 0, adf_document)
      | Inr (Some current_element) \<Rightarrow>
          if \<not> element_truthy current_element then (Inr 0, adf_document)
          else
          (case get_or (kwargs operation) ''modifications'' (JObj []) of
             JObj modifications \<Rightarrow>
               (case apply_modifications current_element modifications of
                  (r, modified) \<Rightarrow>
                    (case r of Inl e \<Rightarrow> Inl e | Inr u \<Rightarrow> Inr 1,
                     with_content adf_document
                       (set_node_at_path (dm_content (model adf_document)) path modified)))
           | _ \<Rightarrow> (Inl AttributeError, adf_document)))"

text \<open>
  \<^verbatim>\<open>_apply_insert_before_operation\<close> and \<^verbatim>\<open>_apply_insert_after_operation\<close>: a path
  shorter than two indices is turned down.
\<close>

definition apply_insert_before_operation ::
    "adf_document \<Rightarrow> search_result \<Rightarrow> update_operation \<Rightarrow> (py_error + nat) \<times> adf_document" where
  "apply_insert_before_operation adf_document element_result operation =
     (let path = ep_path (sr_path element_result) in
      if length path < 2 then (Inr 0, adf_document)
      else
        (case insert_element_at_path adf_document (butlast path) (int (last path))
                (new_content operation) of
           (Inl e, d) \<Rightarrow> (Inl e, d)
         | (Inr success, d) \<Rightarrow> (Inr (if success then 1 else 0), d)))"

definition apply_insert_after_operation ::
    "adf_document \<Rightarrow> search_result \<Rightarrow> update_operation \<Rightarrow> (py_error + nat) \<times> adf_document" where
  "apply_insert_after_operation adf_document element_result operation =
     (let path = ep_path (sr_path element_result) in
      if length path < 2 then (Inr 0, adf_document)
      else
        (case insert_element_at_path adf_document (butlast path) (int (last path) + 1)
                (new_content operation) of
           (Inl e, d) \<Rightarrow> (Inl e, d)
         | (Inr success, d) \<Rightarrow> (Inr (if success then 1 else 0), d)))"

definition apply_delete_operation ::
    "adf_document \<Rightarrow> search_result \<Rightarrow> update_operation \<Rightarrow> (py_error + nat) \<times> adf_document" where
  "apply_delete_operation adf_document element_result operation =
     (case delete_element_at_path adf_document (ep_path (sr_path element_result)) of
        (success, d) \<Rightarrow> (Inr (if success then 1 else 0), d))"

text \<open>
  \<^verbatim>\<open>_apply_update_text_operation\<close>: the node at the path is read, its type is compared
  with \<^verbatim>\<open>"text"\<close>, and \<^verbatim>\<open>element.text = new_text\<close> assigns in place.  Neither the raw data
  nor the element map of the document is rebuilt.
\<close>

definition apply_update_text_operation ::
    "adf_document \<Rightarrow> search_result \<Rightarrow> update_operation \<Rightarrow> (py_error + nat) \<times> adf_document" where
  "apply_update_text_operation adf_document element_result operation =
     (let path = ep_path (sr_path element_result) in
      case get_element_at_path adf_document path of
        Inl e \<Rightarrow> (Inl e, adf_document)
      | Inr None \<Rightarrow> (Inr 0, adf_document)
      | Inr (Some element) \<Rightarrow>
          if \<not> element_truthy element \<or> type_attr element \<noteq> JStr ''text''
          then (Inr 0, adf_document)
          else
            (case node_setattr element ''text'' (new_content operation) of
               Inl e \<Rightarrow> (Inl e, adf_document)
             | Inr element' \<Rightarrow>
                 (Inr 1,
                  with_content adf_document
                    (set_node_at_path (dm_content (model adf_document)) path element'))))"

text \<open>
  \<^verbatim>\<open>_apply_operation\<close>: all targets are found first; the operation is then applied to
  each in turn, an exception on one target being logged and passed over.
\<close>

definition apply_to_element ::
    "adf_document \<Rightarrow> search_result \<Rightarrow> update_operation \<Rightarrow> (py_error + nat) \<times> adf_document" where
  "apply_to_element adf_document element_result operation =
     (if operation_type operation = ''replace''
      then apply_replace_operation adf_document element_result operation
      else if operation_type operation = ''modify''
      then apply_modify_operation adf_document element_result operation
      else if operation_type operation = ''insert_before''
      then apply_insert_before_operation adf_document element_result operation
      else if operation_type operation = ''insert_after''
      then apply_insert_after_operation adf_document element_result operation
      else if operation_type operation = ''delete''
      then apply_delete_operation adf_document element_result operation
      else if operation_type operation = ''update_text''
      then apply_update_text_operation adf_document element_result operation
      else (Inr 0, adf_document))"

fun apply_to_elements ::
    "search_result list \<Rightarrow> update_operation \<Rightarrow> nat \<Rightarrow> adf_document \<Rightarrow> nat \<times> adf_document" where
  "apply_to_elements [] operation applied_count adf_document = (applied_count, adf_document)"
| "apply_to_elements (element_result # rest) operation applied_count adf_document =
     (case apply_to_element adf_document element_result operation of
        (Inl e, d) \<Rightarrow> apply_to_elements rest operation applied_count d
      | (Inr k, d) \<Rightarrow> apply_to_elements rest operation (applied_count + k) d)"

definition apply_operation ::
    "(dict \<Rightarrow> int option \<Rightarrow> string) \<Rightarrow> adf_document \<Rightarrow> update_operation
     \<Rightarrow> (py_error + bool) \<times> adf_document" where
  "apply_operation cache_key adf_document operation =
     (case find_element_in_adf cache_key adf_document (target_criteria operation) None True of
        Inl e \<Rightarrow> (Inl e, adf_document)
      | Inr target_elements \<Rightarrow>
          if target_elements = [] then (Inr False, adf_document)
          else
            (case apply_to_elements target_elements operation 0 adf_document of
               (applied_count, d) \<Rightarrow> (Inr (applied_count > 0), d)))"

text \<open>\<^verbatim>\<open>_parse_page_to_adf\<close>; \<^verbatim>\<open>page_data["body"]\<close> needs a dict.\<close>

definition parse_page_to_adf :: "json \<Rightarrow> py_error + adf_document" where
  "parse_page_to_adf page_data =
     bind_err (py_contains page_data ''body'') (\<lambda>has_body.
     bind_err
       (if has_body then
          (case page_data of
             JObj page \<Rightarrow>
               (case dict_get page ''body'' of
                  JObj body \<Rightarrow>
                    if has_key body ''atlas_doc_format'' then Inr (dict_get body ''atlas_doc_format'')
                    else if has_key body ''representation''
                            \<and> dict_get body ''representation'' = JStr ''atlas_doc_format''
                    then Inr (get_or body ''value'' (JObj body))
                    else if has_key body ''value'' then Inr (dict_get body ''value'')
                    else Inr JNull
                | body \<Rightarrow> Inr body)
           | _ \<Rightarrow> Inl TypeError)
        else Inr JNull) (\<lambda>found.
     bind_err
       (if found = JNull then
          bind_err (py_contains page_data ''version'') (\<lambda>has_version.
          if \<not> has_version then Inr EMPTY_ADF_DOCUMENT
          else bind_err (py_contains page_data ''type'') (\<lambda>has_type.
          if \<not> has_type then Inr EMPTY_ADF_DOCUMENT
          else bind_err (py_contains page_data ''content'') (\<lambda>has_content.
          Inr (if has_content then page_data else EMPTY_ADF_DOCUMENT))))
        else Inr found) (\<lambda>adf_content.
     Inr (from_dict adf_content))))"

text \<open>
  The Confluence client is outside the module.  Its two calls take the state of the world
  and return it; the clock that names a backup is read from that state too.
\<close>

record 'w confluence_client =
  get_page_adf :: "string \<Rightarrow> 'w \<Rightarrow> (py_error + json) \<times> 'w"
  update_page_adf :: "string \<Rightarrow> dict \<Rightarrow> json \<Rightarrow> 'w \<Rightarrow> (py_error + json) \<times> 'w"
  time_now :: "'w \<Rightarrow> int"

record 'w adf_writer =
  confluence_client :: "'w confluence_client option"
  validator :: validator
  backup_documents :: "(string \<times> adf_document) list"

definition ADFWriter_init :: "'w confluence_client option \<Rightarrow> 'w adf_writer" where
  "ADFWriter_init client =
     \<lparr>confluence_client = client,
      validator = \<lparr>errors = [], warnings = [], current_depth = 0\<rparr>,
      backup_documents = []\<rparr>"

text \<open>\<^verbatim>\<open>str(i)\<close> for an integer.\<close>

definition str_int :: "int \<Rightarrow> string" where
  "str_int i = (if i < 0 then ''-'' @ str_nat (nat (- i)) else str_nat (nat i))"

text \<open>
  \<^verbatim>\<open>str(e)\<close>: the message an exception was raised with.  The exceptions that the
  interpreter and pydantic raise are kept without their message, which reads as empty.
\<close>

definition exception_str :: "py_error \<Rightarrow> string" where
  "exception_str e = (case e of ValueError s \<Rightarrow> s | RuntimeError s \<Rightarrow> s | _ \<Rightarrow> [])"

definition is_value_error :: "py_error \<Rightarrow> bool" where
  "is_value_error e = (case e of ValueError s \<Rightarrow> True | ValidationError \<Rightarrow> True | _ \<Rightarrow> False)"

definition create_backup_for ::
    "'w confluence_client \<Rightarrow> string \<Rightarrow> adf_document \<Rightarrow> 'w \<Rightarrow> 'w adf_writer \<Rightarrow> string \<times> 'w adf_writer" where
  "create_backup_for client page_id adf_document world self =
     (let backup_id = ''backup_'' @ page_id @ ''_'' @ str_int (time_now client world)
      in (backup_id,
          self\<lparr>backup_documents := dict_set (backup_documents self) backup_id adf_document\<rparr>))"

text \<open>What step 4 records for each operation.\<close>

datatype reason = No_matching_elements_found | Raised py_error

record applied_operation =
  ao_index :: nat
  ao_operation_type :: string
  ao_target_criteria :: dict
  ao_success :: bool
  ao_reason :: "reason option"

fun apply_operations ::
    "(dict \<Rightarrow> int option \<Rightarrow> string) \<Rightarrow> update_operation list \<Rightarrow> nat \<Rightarrow> adf_document
     \<Rightarrow> applied_operation list \<times> adf_document" where
  "apply_operations cache_key [] i adf_document = ([], adf_document)"
| "apply_operations cache_key (operation # rest) i adf_document =
     (case apply_operation cache_key adf_document operation of
        (r, d) \<Rightarrow>
          (case apply_operations cache_key rest (Suc i) d of
             (applied, d') \<Rightarrow>
               (\<lparr>ao_index = i,
                 ao_operation_type = operation_type operation,
                 ao_target_criteria = target_criteria operation,
                 ao_success = (r = Inr True),
                 ao_reason = (case r of
                                Inr True \<Rightarrow> None
                              | Inr False \<Rightarrow> Some No_matching_elements_found
                              | Inl e \<Rightarrow> Some (Raised e))\<rparr> # applied,
                d')))"

record update_result =
  ur_success :: bool
  ur_page_id :: string
  ur_updated_page :: json
  ur_applied_operations :: "applied_operation list"
  ur_operations_count :: nat
  ur_successful_operations :: nat
  ur_validation_result :: "bool option"
  ur_backup_id :: "string option"
  ur_retry_count :: int

text \<open>\<^verbatim>\<open>current_page.get('version', {}).get('number')\<close> and the request of step 6.\<close>

definition version_number_of :: "json \<Rightarrow> py_error + json" where
  "version_number_of current_page =
     (case current_page of
        JObj page \<Rightarrow>
          (case get_or page ''version'' (JObj []) of
             JObj version \<Rightarrow> Inr (dict_get version ''number'')
           | _ \<Rightarrow> Inl AttributeError)
      | _ \<Rightarrow> Inl AttributeError)"

definition page_request :: "json \<Rightarrow> adf_document \<Rightarrow> dict" where
  "page_request current_page adf_document =
     [(''title'', (case current_page of
                     JObj page \<Rightarrow> get_or page ''title'' (JStr ''Updated Page'')
                   | _ \<Rightarrow> JNull)),
      (''body'', JObj (to_dict adf_document))]"

text \<open>
  One pass through the body of the \<^verbatim>\<open>while\<close> loop of
  \<^verbatim>\<open>update_page_preserving_formatting\<close>, steps 1 to 6: fetch the page, parse it, back it
  up, apply the operations, validate (the outcome is only logged), write the page back.
\<close>

definition attempt ::
    "(dict \<Rightarrow> int option \<Rightarrow> string) \<Rightarrow> 'w confluence_client \<Rightarrow> string \<Rightarrow> update_operation list
     \<Rightarrow> bool \<Rightarrow> bool \<Rightarrow> int \<Rightarrow> 'w adf_writer \<Rightarrow> 'w
     \<Rightarrow> (py_error + update_result) \<times> 'w adf_writer \<times> 'w" where
  "attempt cache_key client page_id operations validate_before_update create_backup retry_count
       self world =
     (case get_page_adf client page_id world of
        (Inl e, world1) \<Rightarrow> (Inl e, self, world1)
      | (Inr current_page, world1) \<Rightarrow>
          (case parse_page_to_adf current_page of
             Inl e \<Rightarrow> (Inl e, self, world1)
           | Inr parsed \<Rightarrow>
               (let backed_up =
                      (if create_backup
                       then (case create_backup_for client page_id parsed world1 self of
                               (backup_id, self1) \<Rightarrow> (Some backup_id, self1))
                       else (None, self));
                    backup_id = fst backed_up;
                    self1 = snd backed_up;
                    applied = apply_operations cache_key operations 0 parsed;
                    applied_operations = fst applied;
                    adf_document = snd applied;
                    validated =
                      (if validate_before_update
                       then (case validate_document (JObj (to_dict adf_document)) (validator self1) of
                               (is_valid, v) \<Rightarrow> (Some is_valid, self1\<lparr>validator := v\<rparr>))
                       else (None, self1));
                    validation_result = fst validated;
                    self2 = snd validated
                in case version_number_of current_page of
                     Inl e \<Rightarrow> (Inl e, self2, world1)
                   | Inr version_number \<Rightarrow>
                       (case update_page_adf client page_id
                               (page_request current_page adf_document) version_number world1 of
                          (Inl e, world2) \<Rightarrow> (Inl e, self2, world2)
                        | (Inr updated_page, world2) \<Rightarrow>
                            (Inr \<lparr>ur_success = True,
                                  ur_page_id = page_id,
                                  ur_updated_page = updated_page,
                                  ur_applied_operations = applied_operations,
                                  ur_operations_count = length applied_operations,
                                  ur_successful_operations =
                                    length (filter ao_success applied_operations),
                                  ur_validation_result = validation_result,
                                  ur_backup_id = backup_id,
                                  ur_retry_count = retry_count\<rparr>,
                             self2, world2)))))"

text \<open>
  The \<^verbatim>\<open>while retry_count <= max_retries\<close> loop with its two handlers.  A \<^verbatim>\<open>ValueError\<close>
  whose text contains \<^verbatim>\<open>conflict\<close> is retried while \<^verbatim>\<open>retry_count < max_retries\<close>.
\<close>

definition retries_exceeded :: "int \<Rightarrow> string \<Rightarrow> py_error" where
  "retries_exceeded max_retries cause =
     RuntimeError (''Page update failed after '' @ str_int max_retries @ '' retries: '' @ cause)"

function update_loop ::
    "(dict \<Rightarrow> int option \<Rightarrow> string) \<Rightarrow> 'w confluence_client \<Rightarrow> string \<Rightarrow> update_operation list
     \<Rightarrow> bool \<Rightarrow> bool \<Rightarrow> bool \<Rightarrow> int \<Rightarrow> int \<Rightarrow> py_error option \<Rightarrow> 'w adf_writer \<Rightarrow> 'w
     \<Rightarrow> (py_error + update_result) \<times> 'w adf_writer \<times> 'w" where
  "update_loop cache_key client page_id operations validate_before_update create_backup
       auto_retry_on_conflict max_retries retry_count last_error self world =
     (if retry_count \<le> max_retries then
        (case attempt cache_key client page_id operations validate_before_update create_backup
                retry_count self world of
           (Inr result, self', world') \<Rightarrow> (Inr result, self', world')
         | (Inl e, self', world') \<Rightarrow>
             if is_value_error e then
               (if contains ''conflict'' (lower (exception_str e)) \<and> auto_retry_on_conflict then
                  (if retry_count < max_retries
                   then update_loop cache_key client page_id operations validate_before_update
                          create_backup auto_retry_on_conflict max_retries (retry_count + 1)
                          (Some e) self' world'
                   else (Inl (retries_exceeded max_retries (exception_str e)), self', world'))
                else (Inl e, self', world'))
             else (Inl (RuntimeError (''Page update failed: '' @ exception_str e)), self', world'))
      else (Inl (retries_exceeded max_retries
                   (case last_error of None \<Rightarrow> ''None'' | Some e \<Rightarrow> exception_str e)),
            self, world))"
  by pat_completeness auto
termination
  by (relation "measure (\<lambda>(cache_key, client, page_id, operations, validate_before_update,
          create_backup, auto_retry_on_conflict, max_retries, retry_count, rest).
          nat (max_retries + 1 - retry_count))") auto

text \<open>
  \<^verbatim>\<open>ADFWriter.update_page_preserving_formatting\<close>, for operations that are
  \<^verbatim>\<open>UpdateOperation\<close> objects.
\<close>

definition update_page_preserving_formatting ::
    "(dict \<Rightarrow> int option \<Rightarrow> string) \<Rightarrow> 'w adf_writer \<Rightarrow> string \<Rightarrow> update_operation list
     \<Rightarrow> bool \<Rightarrow> bool \<Rightarrow> bool \<Rightarrow> int \<Rightarrow> 'w
     \<Rightarrow> (py_error + update_result) \<times> 'w adf_writer \<times> 'w" where
  "update_page_preserving_formatting cache_key self page_id operations validate_before_update
       create_backup auto_retry_on_conflict max_retries world =
     (if page_id = [] then (Inl (ValueError ''Valid page_id is required''), self, world)
      else if operations = [] then (Inl (ValueError ''At least one operation is required''), self, world)
      else
        (case confluence_client self of
           None \<Rightarrow> (Inl (ValueError ''Confluence client is required for page updates''), self, world)
         | Some client \<Rightarrow>
             update_loop cache_key client page_id operations validate_before_update create_backup
               auto_retry_on_conflict max_retries 0 None self world))"

section \<open>Predicates used to state the properties\<close>

text \<open>
  A mark of the input carries an unknown type when its \<^verbatim>\<open>type\<close> is a string outside
  \<^verbatim>\<open>MARK_TYPES\<close>; a node of the content tree does when its own \<^verbatim>\<open>type\<close> is a string
  outside \<^verbatim>\<open>NODE_TYPES\<close>, or one of its marks or of the nodes below it does.
\<close>

definition unknown_type :: "string list \<Rightarrow> json option \<Rightarrow> bool" where
  "unknown_type table v = (case v of Some (JStr t) \<Rightarrow> t \<notin> set table | _ \<Rightarrow> False)"

definition unknown_mark :: "json \<Rightarrow> bool" where
  "unknown_mark j = (case j of JObj kvs \<Rightarrow> unknown_type MARK_TYPES (map_of kvs ''type'') | _ \<Rightarrow> False)"

function (sequential) holds_unknown_type :: "json \<Rightarrow> bool" where
  "holds_unknown_type (JObj kvs) =
     (unknown_type NODE_TYPES (map_of kvs ''type'')
      \<or> (case map_of kvs ''marks'' of Some (JArr ms) \<Rightarrow> list_ex unknown_mark ms | _ \<Rightarrow> False)
      \<or> list_ex holds_unknown_type (content_items kvs))"
| "holds_unknown_type _ = False"
  by pat_completeness auto
termination
proof (relation "measure size")
  show "wf (measure size)" by simp
next
  fix kvs :: dict and x :: json
  assume mem: "x \<in> set (content_items kvs)"
  have look: "map_of kvs k = Some w \<Longrightarrow> size w \<le> size_list (size_prod (\<lambda>_. 0) size) kvs" for k w
    by (induction kvs) (force split: if_splits simp: le_SucI trans_le_add2)+
  have est: "x \<in> set xs \<Longrightarrow> size x \<le> size_list size xs" for xs :: "json list"
    by (induction xs) auto
  from mem have "\<exists>xs. map_of kvs ''content'' = Some (JArr xs) \<and> x \<in> set xs"
    by (cases "map_of kvs ''content''") (auto simp: content_items_def split: json.splits)
  then obtain xs where xs: "map_of kvs ''content'' = Some (JArr xs)" "x \<in> set xs"
    by blast
  from look [OF xs(1)] est [OF xs(2)] show "(x, JObj kvs) \<in> measure size"
    by simp
qed

definition input_holds_unknown_type :: "json \<Rightarrow> bool" where
  "input_holds_unknown_type data =
     (case data of
        JObj kvs \<Rightarrow> list_ex holds_unknown_type (content_items kvs)
      | _ \<Rightarrow> False)"

text \<open>
  A path is out of range in a content array when one of its indices is past the array it
  indexes at that hop; an element without a content array (a node whose \<^verbatim>\<open>content\<close> is
  \<^verbatim>\<open>None\<close>, or an element that is not a node) leaves every further index out of range.
\<close>

fun out_of_range :: "node list \<Rightarrow> nat list \<Rightarrow> bool" where
  "out_of_range xs [] = False"
| "out_of_range xs (i # rest) =
     (if i \<ge> length xs then True
      else if rest = [] then False
      else (case node_content (xs ! i) of Some c \<Rightarrow> out_of_range c rest | None \<Rightarrow> True))"

text \<open>
  Among the paths out of range, those that run into \<^verbatim>\<open>None\<close>: every index so far was
  inside its array, and the walk stands at a node model whose \<^verbatim>\<open>content\<close> is \<^verbatim>\<open>None\<close> with
  an index still to go.
\<close>

fun runs_into_none :: "node list \<Rightarrow> nat list \<Rightarrow> bool" where
  "runs_into_none xs [] = False"
| "runs_into_none xs [i] = False"
| "runs_into_none xs (i # j # rest) =
     (i < length xs \<and> is_model (xs ! i)
      \<and> (case node_content (xs ! i) of
             None \<Rightarrow> True
           | Some c \<Rightarrow> runs_into_none c (j # rest)))"


text \<open>
  What pydantic guarantees of a model object it built: a known type, the required
  \<^verbatim>\<open>type\<close> among the fields set, no declared field name among the extra keys, and the
  same for every mark and child.
\<close>

fun valid_mark :: "mark \<Rightarrow> bool" where
  "valid_mark (Mark t a ex fs) =
     (t \<in> set MARK_TYPES \<and> ''type'' \<in> set fs \<and> list_all (\<lambda>kv. fst kv \<notin> set mark_fields) ex)"

fun valid_node :: "node \<Rightarrow> bool" where
  "valid_node (Node t a c tx ms ex fs) =
     (t \<in> set NODE_TYPES \<and> ''type'' \<in> set fs \<and> list_all (\<lambda>kv. fst kv \<notin> set node_fields) ex
      \<and> (case ms of None \<Rightarrow> True | Some xs \<Rightarrow> list_all valid_mark xs)
      \<and> (case c of None \<Rightarrow> True | Some ns \<Rightarrow> list_all valid_node ns))"
| "valid_node (Foreign j) = False"

definition valid_model :: "doc_model \<Rightarrow> bool" where
  "valid_model m =
     (list_all valid_node (dm_content m) \<and> list_all (\<lambda>kv. fst kv \<notin> set doc_fields) (dm_extra m))"

text \<open>
  The criteria key that decides a search: the first of the six keys, in priority order,
  whose value is truthy (for \<^verbatim>\<open>index\<close>: is not \<^verbatim>\<open>None\<close>); no key decides the compound
  fallback.
\<close>

definition deciding_key :: "dict \<Rightarrow> string option" where
  "deciding_key criteria =
     (if truthy (dict_get criteria ''json_path'') then Some ''json_path''
      else if truthy (dict_get criteria ''text'') then Some ''text''
      else if truthy (dict_get criteria ''node_type'') then Some ''node_type''
      else if truthy (dict_get criteria ''attributes'') then Some ''attributes''
      else if truthy (dict_get criteria ''marks'') then Some ''marks''
      else if dict_get criteria ''index'' \<noteq> JNull then Some ''index''
      else None)"

text \<open>The search that a deciding key names, applied to the value of that key.\<close>

definition run_strategy :: "string \<Rightarrow> json \<Rightarrow> adf_document \<Rightarrow> py_error + search_result list" where
  "run_strategy k v d =
     (if k = ''json_path'' then Inr (search_by_json_path v d)
      else if k = ''text'' then search_by_text_content v d
      else if k = ''node_type'' then search_by_node_type v d
      else if k = ''attributes'' then search_by_attributes v d
      else if k = ''marks'' then search_by_marks v d
      else search_by_index v d)"

section \<open>Concrete inputs\<close>

definition c10_input :: json where
  "c10_input = JObj [(''version'', JInt 1), (''type'', JStr ''doc''),
     (''content'', JArr [
        JObj [(''type'', JStr ''paragraph''),
              (''content'', JArr [JObj [(''type'', JStr ''text''), (''text'', JStr ''kept?'')]])],
        JObj [(''type'', JStr ''paragraph''),
              (''content'', JArr [JObj [(''type'', JStr ''blink''), (''text'', JStr ''x'')]])]])]"


definition para :: "string \<Rightarrow> json" where
  "para s = JObj [(''type'', JStr ''paragraph''),
                  (''content'', JArr [JObj [(''type'', JStr ''text''), (''text'', JStr s)]])]"

definition two_paragraphs :: adf_document where
  "two_paragraphs = ADFDocument_init (Some (JObj [(''version'', JInt 1), (''type'', JStr ''doc''),
      (''content'', JArr [para ''a'', para ''b''])]))"


definition node_c :: node where
  "node_c = Node ''paragraph'' (Some [])
     (Some [Node ''text'' (Some []) (Some []) (Some ''c'') (Some []) [] [''type'', ''text'']])
     None (Some []) [] [''type'', ''content'']"


text \<open>A cache key function for the concrete searches below; their finder is fresh.\<close>

definition constant_cache_key :: "dict \<Rightarrow> int option \<Rightarrow> string" where
  "constant_cache_key criteria limit = ''search''"

text \<open>
  An insertion of a paragraph next to the first top-level node, and the search result that
  the finder returns for that node.
\<close>

definition insert_x :: "string \<Rightarrow> update_operation" where
  "insert_x op_type =
     \<lparr>operation_type = op_type, target_criteria = [(''index'', JInt 0)],
      new_content = para ''x'', preserve_attributes = True, preserve_marks = True, kwargs = []\<rparr>"

definition top_level_target :: search_result where
  "top_level_target = node_result ([0], 0, dm_content (model two_paragraphs) ! 0)"

text \<open>A document whose only paragraph has \<^verbatim>\<open>content\<close> \<^verbatim>\<open>null\<close>.\<close>

definition null_paragraph :: adf_document where
  "null_paragraph = ADFDocument_init (Some (JObj [(''version'', JInt 1), (''type'', JStr ''doc''),
      (''content'', JArr [JObj [(''type'', JStr ''paragraph''), (''content'', JNull)]])]))"

text \<open>
  The fields of an element other than the nodes below it: everything it holds, with the
  number of its children in place of the children.
\<close>

definition own_fields ::
    "node \<Rightarrow> (string \<times> dict option \<times> nat option \<times> string option)
            \<times> (mark list option \<times> dict \<times> string list \<times> bool \<times> json)" where
  "own_fields n =
     ((node_type n, node_attrs n, map_option length (node_content n), node_text n),
      (node_marks n, node_extra n, node_fields_set n, is_model n, foreign_value n))"

text \<open>
  A document whose first paragraph holds the bold text \<^verbatim>\<open>old\<close>, the search result for
  that text node, and the operation that sets its text to \<^verbatim>\<open>new\<close>.
\<close>

definition bold_text :: "string \<Rightarrow> json" where
  "bold_text s = JObj [(''type'', JStr ''text''), (''text'', JStr s),
                       (''marks'', JArr [JObj [(''type'', JStr ''strong'')]])]"

definition bold_doc :: adf_document where
  "bold_doc = ADFDocument_init (Some (JObj [(''version'', JInt 1), (''type'', JStr ''doc''),
      (''content'', JArr [JObj [(''type'', JStr ''paragraph''), (''content'', JArr [bold_text ''old''])],
                          para ''b''])]))"

definition bold_target :: search_result where
  "bold_target =
     node_result ([0, 0], 0, the (node_content (dm_content (model bold_doc) ! 0)) ! 0)"

definition update_text_new :: update_operation where
  "update_text_new =
     \<lparr>operation_type = ''update_text'', target_criteria = [(''text'', JStr ''old'')],
      new_content = JStr ''new'', preserve_attributes = True, preserve_marks = True, kwargs = []\<rparr>"

text \<open>The search result for the first paragraph of that document, which is not a text node.\<close>

definition top_level_bold :: search_result where
  "top_level_bold = node_result ([0], 0, dm_content (model bold_doc) ! 0)"

text \<open>The \<^verbatim>\<open>type\<close> of a mark given as a dict.\<close>

definition mark_type_of :: "json \<Rightarrow> json" where
  "mark_type_of m = (case m of JObj d \<Rightarrow> dict_get d ''type'' | _ \<Rightarrow> JNull)"

text \<open>
  The replacement of the claim: the bold text \<^verbatim>\<open>old\<close> is replaced by the plain text
  \<^verbatim>\<open>new\<close>, keeping attributes and marks.  \<open>twice_bold_doc\<close> holds a text that carries the
  mark \<^verbatim>\<open>strong\<close> twice.
\<close>

definition replace_by_new :: update_operation where
  "replace_by_new =
     \<lparr>operation_type = ''replace'', target_criteria = [(''text'', JStr ''old'')],
      new_content = JObj [(''type'', JStr ''text''), (''text'', JStr ''new'')],
      preserve_attributes = True, preserve_marks = True, kwargs = []\<rparr>"




text \<open>
  A client seen from the writer is the history of the calls made to it.  The client below
  serves, at each fetch, the page that \<open>serve\<close> names for the history so far, and answers
  every write with a \<^verbatim>\<open>ValueError\<close> whose text \<open>message\<close> names for the history so far.
\<close>

datatype call = Fetch string | Write string dict json

definition conflicting_client ::
    "(call list \<Rightarrow> json) \<Rightarrow> (call list \<Rightarrow> string) \<Rightarrow> (call list \<Rightarrow> int)
     \<Rightarrow> call list confluence_client" where
  "conflicting_client serve message clock =
     \<lparr>get_page_adf = (\<lambda>page_id history. (Inr (serve history), history @ [Fetch page_id])),
      update_page_adf = (\<lambda>page_id data version history.
         (Inl (ValueError (message history)), history @ [Write page_id data version])),
      time_now = clock\<rparr>"

text \<open>A page the writer can take apart: a dict whose \<^verbatim>\<open>version\<close>, if any, is a dict.\<close>

definition fetchable :: "json \<Rightarrow> bool" where
  "fetchable page_data =
     (case page_data of
        JObj page \<Rightarrow> (case get_or page ''version'' (JObj []) of JObj v \<Rightarrow> True | _ \<Rightarrow> False)
      | _ \<Rightarrow> False)"

text \<open>
  The write that one pass over a fetched page leads to: the operations applied to the
  document parsed from that page, under the title and the version number of that page.
\<close>

definition expected_write ::
    "(dict \<Rightarrow> int option \<Rightarrow> string) \<Rightarrow> string \<Rightarrow> update_operation list \<Rightarrow> json \<Rightarrow> call" where
  "expected_write cache_key page_id operations page_data =
     Write page_id
       (page_request page_data
          (snd (apply_operations cache_key operations 0 (projr (parse_page_to_adf page_data)))))
       (projr (version_number_of page_data))"

text \<open>The history after \<open>k\<close> more passes, each a fetch followed by the write it leads to.\<close>

fun passes ::
    "(dict \<Rightarrow> int option \<Rightarrow> string) \<Rightarrow> string \<Rightarrow> update_operation list \<Rightarrow> (call list \<Rightarrow> json)
     \<Rightarrow> nat \<Rightarrow> call list \<Rightarrow> call list" where
  "passes cache_key page_id operations serve 0 history = history"
| "passes cache_key page_id operations serve (Suc k) history =
     passes cache_key page_id operations serve k
       (history @ [Fetch page_id, expected_write cache_key page_id operations (serve history)])"

text \<open>
  A page of two paragraphs at version 7, the message of the Confluence client for a
  version conflict, and a client that serves that page and reports that conflict always.
\<close>

definition served_page :: json where
  "served_page = JObj [(''title'', JStr ''Notes''), (''version'', JObj [(''number'', JInt 7)]),
     (''body'', JObj [(''atlas_doc_format'',
        JObj [(''version'', JInt 1), (''type'', JStr ''doc''),
              (''content'', JArr [para ''old'', para ''b''])])])]"

definition conflict_message :: string where
  "conflict_message = ''Page version conflict - page may have been updated by another user''"

definition stubborn_client :: "call list confluence_client" where
  "stubborn_client = conflicting_client (\<lambda>history. served_page) (\<lambda>history. conflict_message)
                       (\<lambda>history. 0)"

text \<open>
  The nesting depth of a document or node: the number of \<^verbatim>\<open>content\<close> arrays nested in one
  another from it downwards.  For a document this is the number of node levels below the
  root, when the deepest nodes give no \<^verbatim>\<open>content\<close>.
\<close>

function (sequential) array_depth :: "json \<Rightarrow> nat" where
  "array_depth (JObj kvs) =
     (case map_of kvs ''content'' of
        Some (JArr xs) \<Rightarrow> Suc (fold max (map array_depth (content_items kvs)) 0)
      | _ \<Rightarrow> 0)"
| "array_depth _ = 0"
  by pat_completeness auto
termination
proof (relation "measure size")
  show "wf (measure size)" by simp
next
  fix kvs :: dict and x :: json and x2 :: json and xs :: "json list"
  assume "map_of kvs ''content'' = Some x2" and "x2 = JArr xs" and mem: "x \<in> set (content_items kvs)"
  have look: "map_of kvs k = Some w \<Longrightarrow> size w \<le> size_list (size_prod (\<lambda>_. 0) size) kvs" for k w
    by (induction kvs) (force split: if_splits simp: le_SucI trans_le_add2)+
  have est: "x \<in> set ys \<Longrightarrow> size x \<le> size_list size ys" for ys :: "json list"
    by (induction ys) auto
  from mem have "\<exists>ys. map_of kvs ''content'' = Some (JArr ys) \<and> x \<in> set ys"
    by (cases "map_of kvs ''content''") (auto simp: content_items_def split: json.splits)
  then obtain ys where ys: "map_of kvs ''content'' = Some (JArr ys)" "x \<in> set ys"
    by blast
  from look [OF ys(1)] est [OF ys(2)] show "(x, JObj kvs) \<in> measure size"
    by simp
qed

text \<open>The max-depth errors among the errors of a validator.\<close>

definition depth_errors :: "validator \<Rightarrow> verror list" where
  "depth_errors st = filter (\<lambda>e. ve_message e = max_depth_exceeded) (errors st)"

text \<open>A check that leaves the depth counter and the max-depth errors as they are.\<close>

definition quiet :: "bool validation \<Rightarrow> bool" where
  "quiet check =
     (\<forall>st. current_depth (snd (check st)) = current_depth st
           \<and> depth_errors (snd (check st)) = depth_errors st)"

text \<open>
  \<open>k\<close> block quotes nested in one another around a node, and the document that holds
  them; \<open>leaf\<close> is a text node.
\<close>

fun wrap :: "nat \<Rightarrow> json \<Rightarrow> json" where
  "wrap 0 j = j"
| "wrap (Suc k) j = JObj [(''type'', JStr ''blockquote''), (''content'', JArr [wrap k j])]"

definition chain_doc :: "nat \<Rightarrow> json \<Rightarrow> json" where
  "chain_doc k j = JObj [(''version'', JInt 1), (''type'', JStr ''doc''),
                         (''content'', JArr [wrap k j])]"

definition leaf :: json where
  "leaf = JObj [(''type'', JStr ''text''), (''text'', JStr ''x'')]"

text \<open>The one error that a chain too deep gets, and a validator that has not run yet.\<close>

definition depth_error :: verror where
  "depth_error = \<lparr>ve_path = replicate 21 0, ve_message = max_depth_exceeded,
                   ve_severity = ''error''\<rparr>"

definition fresh_validator :: validator where
  "fresh_validator = \<lparr>errors = [], warnings = [], current_depth = 0\<rparr>"

text \<open>
  What a step of the walk may do to the validator, given the outcome \<open>out\<close> of the step
  from the state \<open>st\<close>: when it returns, the depth counter is back where it was; when it was
  within its \<open>budget\<close>, it has reported no max-depth error.
\<close>

definition settles :: "bool \<Rightarrow> validator \<Rightarrow> (py_error + bool) \<times> validator \<Rightarrow> bool" where
  "settles budget st out =
     ((case fst out of Inr v \<Rightarrow> current_depth (snd out) = current_depth st | Inl e \<Rightarrow> True)
      \<and> (budget \<longrightarrow> depth_errors (snd out) = depth_errors st))"

section \<open>Properties of parsing\<close>

lemma sequence_Inl_iff:
  "(\<exists>e. sequence rs = Inl e) \<longleftrightarrow> (\<exists>e. Inl e \<in> set rs)"
proof (induction rs)
  case Nil
  show ?case by simp
next
  case (Cons r rs)
  show ?case
  proof (cases r)
    case (Inl e)
    then show ?thesis by auto
  next
    case (Inr x)
    with Cons show ?thesis by (auto split: sum.splits)
  qed
qed

lemma sequence_error_in:
  "sequence rs = Inl e \<Longrightarrow> Inl e \<in> set rs"
proof (induction rs)
  case Nil
  then show ?case by simp
next
  case (Cons r rs)
  then show ?case by (cases r) (auto split: sum.splits)
qed

lemma bind_err_Inr_iff:
  "bind_err r f = Inr y \<longleftrightarrow> (\<exists>x. r = Inr x \<and> f x = Inr y)"
  by (cases r) (simp_all add: bind_err_def)

lemma bind_err_Inl_iff:
  "bind_err r f = Inl e \<longleftrightarrow> (r = Inl e \<or> (\<exists>x. r = Inr x \<and> f x = Inl e))"
  by (cases r) (simp_all add: bind_err_def)

lemma bind_err_simps:
  "bind_err (Inl e) f = Inl e" "bind_err (Inr x) f = f x"
  by (simp_all add: bind_err_def)

lemma sequence_map_error:
  assumes "sequence (map f xs) = Inl e" and "\<And>x e'. x \<in> set xs \<Longrightarrow> f x = Inl e' \<Longrightarrow> e' = c"
  shows "e = c"
proof -
  from sequence_error_in [OF assms(1)] obtain x where "x \<in> set xs" "f x = Inl e"
    by auto
  then show ?thesis by (rule assms(2))
qed

lemma validate_type_field_error:
  "validate_type_field table v = Inl e \<Longrightarrow> e = ValidationError"
  by (auto simp: validate_type_field_def split: option.splits json.splits if_splits)

lemma validate_attrs_field_error:
  "validate_attrs_field v = Inl e \<Longrightarrow> e = ValidationError"
  by (auto simp: validate_attrs_field_def split: option.splits json.splits)

lemma validate_text_field_error:
  "validate_text_field v = Inl e \<Longrightarrow> e = ValidationError"
  by (auto simp: validate_text_field_def split: option.splits json.splits)

lemma validate_mark_error:
  assumes "validate_mark j = Inl e"
  shows "e = ValidationError"
proof (cases j)
  case (JObj kvs)
  with assms show ?thesis
    by (auto simp: validate_mark_def bind_err_Inl_iff
        dest: validate_type_field_error validate_attrs_field_error)
qed (use assms in \<open>simp_all add: validate_mark_def\<close>)

lemma validate_marks_field_error:
  assumes "validate_marks_field v = Inl e"
  shows "e = ValidationError"
proof (cases v)
  case None
  with assms show ?thesis by (simp add: validate_marks_field_def)
next
  case (Some j)
  show ?thesis
  proof (cases j)
    case (JArr ms)
    with Some assms have "sequence (map validate_mark ms) = Inl e"
      by (simp add: validate_marks_field_def split: sum.splits)
    then show ?thesis
      by (rule sequence_map_error) (rule validate_mark_error)
  qed (use Some assms in \<open>simp_all add: validate_marks_field_def\<close>)
qed

lemma validate_content_field_error:
  assumes "validate_content_field v children = Inl e"
    and "\<And>e'. children = Inl e' \<Longrightarrow> e' = ValidationError"
  shows "e = ValidationError"
proof (cases v)
  case None
  with assms show ?thesis by (simp add: validate_content_field_def)
next
  case (Some j)
  with assms show ?thesis
    by (cases j; cases children) (simp_all add: validate_content_field_def)
qed

lemma node_of_parts_error:
  assumes "node_of_parts kvs children = Inl e"
    and "\<And>e'. children = Inl e' \<Longrightarrow> e' = ValidationError"
  shows "e = ValidationError"
  using assms(1) unfolding node_of_parts_def bind_err_Inl_iff
  by (auto dest: validate_type_field_error validate_attrs_field_error validate_text_field_error
      validate_marks_field_error validate_content_field_error [OF _ assms(2)])

lemma node_model_validate_error:
  "node_model_validate j = Inl e \<Longrightarrow> e = ValidationError"
proof (induction j arbitrary: e rule: node_model_validate.induct)
  case (1 kvs)
  have "e' = ValidationError" if "sequence (map node_model_validate (content_items kvs)) = Inl e'" for e'
    using that by (rule sequence_map_error) (rule "1.IH")
  with "1.prems" show ?case
    by (auto dest: node_of_parts_error)
qed simp_all

lemma sequence_map_rejects:
  assumes "x \<in> set xs" and "f x = Inl e"
  shows "\<exists>e'. sequence (map f xs) = Inl e'"
proof -
  from assms have "Inl e \<in> set (map f xs)" by force
  then show ?thesis using sequence_Inl_iff by blast
qed

lemma unknown_type_rejected:
  "unknown_type table v \<Longrightarrow> validate_type_field table v = Inl ValidationError"
  by (auto simp: unknown_type_def validate_type_field_def split: option.splits json.splits)

lemma unknown_mark_rejected:
  "unknown_mark j \<Longrightarrow> validate_mark j = Inl ValidationError"
  by (cases j) (simp_all add: unknown_mark_def validate_mark_def unknown_type_rejected bind_err_simps)

lemma unknown_marks_rejected:
  assumes "list_ex unknown_mark ms"
  shows "validate_marks_field (Some (JArr ms)) = Inl ValidationError"
proof -
  from assms obtain m where "m \<in> set ms" "unknown_mark m"
    by (auto simp: list_ex_iff)
  then obtain e where e: "sequence (map validate_mark ms) = Inl e"
    using sequence_map_rejects [of m ms validate_mark] unknown_mark_rejected [of m] by blast
  then have "validate_marks_field (Some (JArr ms)) = Inl e"
    by (simp add: validate_marks_field_def)
  then show ?thesis
    using validate_marks_field_error by blast
qed

lemma node_of_parts_Inr_iff:
  "node_of_parts kvs children = Inr n \<longleftrightarrow>
   (\<exists>t a c tx ms.
      validate_type_field NODE_TYPES (map_of kvs ''type'') = Inr t \<and>
      validate_attrs_field (map_of kvs ''attrs'') = Inr a \<and>
      validate_content_field (map_of kvs ''content'') children = Inr c \<and>
      validate_text_field (map_of kvs ''text'') = Inr tx \<and>
      validate_marks_field (map_of kvs ''marks'') = Inr ms \<and>
      n = Node t a c tx ms (extra_items node_fields kvs) (fields_given node_fields kvs))"
  unfolding node_of_parts_def bind_err_Inr_iff by blast

lemma node_of_parts_rejects:
  assumes "validate_type_field NODE_TYPES (map_of kvs ''type'') = Inl e
     \<or> validate_content_field (map_of kvs ''content'') children = Inl e
     \<or> validate_marks_field (map_of kvs ''marks'') = Inl e"
    and "\<And>e'. children = Inl e' \<Longrightarrow> e' = ValidationError"
  shows "node_of_parts kvs children = Inl ValidationError"
proof (cases "node_of_parts kvs children")
  case (Inl e')
  with node_of_parts_error [OF Inl assms(2)] show ?thesis by simp
next
  case (Inr n)
  with assms(1) show ?thesis
    unfolding node_of_parts_Inr_iff by auto
qed

lemma validate_content_field_rejects:
  assumes "children = Inl e" and "content_items kvs \<noteq> []"
  shows "validate_content_field (map_of kvs ''content'') children = Inl e"
proof -
  from assms(2) obtain xs where "map_of kvs ''content'' = Some (JArr xs)"
    by (cases "map_of kvs ''content''") (auto simp: content_items_def split: json.splits)
  with assms(1) show ?thesis
    by (simp add: validate_content_field_def)
qed


lemma holds_unknown_type_rejected:
  "holds_unknown_type j \<Longrightarrow> node_model_validate j = Inl ValidationError"
proof (induction j rule: node_model_validate.induct)
  case (1 kvs)
  let ?children = "sequence (map node_model_validate (content_items kvs))"
  have ch_err: "e' = ValidationError" if "?children = Inl e'" for e'
    using that by (rule sequence_map_error) (rule node_model_validate_error)
  from "1.prems" consider
      (ty) "unknown_type NODE_TYPES (map_of kvs ''type'')"
    | (mk) ms where "map_of kvs ''marks'' = Some (JArr ms)" "list_ex unknown_mark ms"
    | (ch) "list_ex holds_unknown_type (content_items kvs)"
    by (auto split: option.splits json.splits)
  then have "node_of_parts kvs ?children = Inl ValidationError"
  proof cases
    case ty
    from unknown_type_rejected [OF ty] show ?thesis
      by (intro node_of_parts_rejects [where e = ValidationError] ch_err) simp_all
  next
    case mk
    from unknown_marks_rejected [OF mk(2)] mk(1) show ?thesis
      by (intro node_of_parts_rejects [where e = ValidationError] ch_err) simp_all
  next
    case ch
    then obtain x where x: "x \<in> set (content_items kvs)" "holds_unknown_type x"
      by (auto simp: list_ex_iff)
    from "1.IH" [OF x] have "node_model_validate x = Inl ValidationError" .
    with x(1) obtain e where e: "?children = Inl e"
      using sequence_map_rejects [of x "content_items kvs" node_model_validate] by blast
    moreover from x(1) have "content_items kvs \<noteq> []" by auto
    ultimately have "validate_content_field (map_of kvs ''content'') ?children = Inl e"
      by (rule validate_content_field_rejects)
    then show ?thesis
      by (intro node_of_parts_rejects [where e = e] ch_err) simp_all
  qed
  then show ?case by simp
qed simp_all

lemma fallback_model_eq:
  "fallback_model = \<lparr>dm_content = [], dm_extra = [], dm_fields_set = [''version'', ''type'', ''content'']\<rparr>"
  by (simp add: fallback_model_def validate_document_model_def EMPTY_ADF_DOCUMENT_def
      extra_items_def fields_given_def doc_fields_def has_key_def bind_err_simps
      validate_literal_field_def)

lemma to_dict_fallback:
  "model d = fallback_model \<Longrightarrow>
   to_dict d = [(''version'', JInt 1), (''type'', JStr ''doc''), (''content'', JArr [])]"
  by (simp add: to_dict_def fallback_model_eq dump_doc_model_def keep_field_def has_key_def)

lemma validate_document_model_error:
  assumes "validate_document_model data = Inl e"
  shows "e = ValidationError"
proof (cases data)
  case (JObj kvs)
  have "e' = ValidationError"
    if "(case map_of kvs ''content'' of None \<Rightarrow> Inr [] | Some (JArr xs) \<Rightarrow> sequence (map node_model_validate xs)
          | Some _ \<Rightarrow> Inl ValidationError) = Inl e'" for e'
    using that
    by (auto split: option.splits json.splits dest: sequence_map_error [OF _ node_model_validate_error])
  with assms JObj show ?thesis
    by (auto simp: validate_document_model_def bind_err_Inl_iff validate_literal_field_def
        split: option.splits if_splits)
qed (use assms in \<open>simp_all add: validate_document_model_def\<close>)

lemma input_holds_unknown_type_rejected:
  assumes "input_holds_unknown_type data"
  shows "validate_document_model data = Inl ValidationError"
proof -
  from assms obtain kvs where d: "data = JObj kvs" and ex: "list_ex holds_unknown_type (content_items kvs)"
    by (cases data) (auto simp: input_holds_unknown_type_def)
  from ex obtain x where x: "x \<in> set (content_items kvs)" "holds_unknown_type x"
    by (auto simp: list_ex_iff)
  then obtain xs where xs: "map_of kvs ''content'' = Some (JArr xs)" "x \<in> set xs"
    by (cases "map_of kvs ''content''") (auto simp: content_items_def split: json.splits)
  from x(2) xs(2) obtain e where e: "sequence (map node_model_validate xs) = Inl e"
    using sequence_map_rejects [of x xs node_model_validate] holds_unknown_type_rejected [of x] by blast
  have "\<exists>e. validate_document_model data = Inl e"
  proof (cases "validate_document_model data")
    case (Inr m)
    then show ?thesis
      using e xs(1) unfolding d validate_document_model_def
      by (simp add: bind_err_Inr_iff)
  qed blast
  then show ?thesis
    using validate_document_model_error by blast
qed

text \<open>
  C10.  An input whose content tree holds a node of unknown type, or a mark of unknown
  type, anywhere, is discarded as a whole: the document built from it serialises as the
  empty document \<^verbatim>\<open>{"version": 1, "type": "doc", "content": []}\<close>.
\<close>

theorem unknown_type_yields_empty_document:
  assumes "input_holds_unknown_type data"
  shows "to_dict (ADFDocument_init (Some data))
         = [(''version'', JInt 1), (''type'', JStr ''doc''), (''content'', JArr [])]"
proof -
  have "model (ADFDocument_init (Some data)) = fallback_model"
    using input_holds_unknown_type_rejected [OF assms] by (simp add: ADFDocument_init_def)
  then show ?thesis by (rule to_dict_fallback)
qed

theorem unknown_type_yields_empty_document_witness:
  "input_holds_unknown_type c10_input \<and>
   to_dict (ADFDocument_init (Some c10_input))
     = [(''version'', JInt 1), (''type'', JStr ''doc''), (''content'', JArr [])]"
proof -
  have h: "input_holds_unknown_type c10_input"
    by (simp add: c10_input_def input_holds_unknown_type_def content_items_def NODE_TYPES_def unknown_type_def)
  from h unknown_type_yields_empty_document [OF h] show ?thesis by simp
qed

section \<open>Path addressing in the document\<close>

lemma has_content_is_model: "node_content n = Some c \<Longrightarrow> is_model n"
  by (cases n) simp_all

lemma navigate_out_of_range:
  "out_of_range xs path \<Longrightarrow> \<not> runs_into_none xs path \<Longrightarrow>
   navigate (Some xs) (butlast path) = Inl IndexError
   \<or> navigate (Some xs) (butlast path) = Inl AttributeError
   \<or> (\<exists>ys. navigate (Some xs) (butlast path) = Inr (Some ys) \<and> length ys \<le> last path)"
proof (induction xs path rule: out_of_range.induct)
  case (1 xs)
  then show ?case by simp
next
  case (2 xs i rest)
  show ?case
  proof (cases "rest = []")
    case True
    with "2.prems" show ?thesis by (simp split: if_splits)
  next
    case False
    then obtain j rest' where rest: "rest = j # rest'" by (cases rest) auto
    show ?thesis
    proof (cases "i \<ge> length xs")
      case True
      with False show ?thesis by simp
    next
      case inb: False
      show ?thesis
      proof (cases "node_content (xs ! i)")
        case None
        with "2.prems"(2) inb rest have "\<not> is_model (xs ! i)" by simp
        with inb rest show ?thesis by simp
      next
        case (Some c)
        from has_content_is_model [OF Some] have m: "is_model (xs ! i)" .
        from "2.prems" inb False Some m rest
        have "out_of_range c rest" and "\<not> runs_into_none c rest" by simp_all
        from "2.IH" [OF inb False Some this] False inb Some m show ?thesis by simp
      qed
    qed
  qed
qed

lemma navigate_runs_into_none:
  "runs_into_none xs path \<Longrightarrow>
   navigate (Some xs) (butlast path) = Inl TypeError \<or> navigate (Some xs) (butlast path) = Inr None"
proof (induction xs path rule: runs_into_none.induct)
  case (1 xs)
  then show ?case by simp
next
  case (2 xs i)
  then show ?case by simp
next
  case (3 xs i j rest)
  from "3.prems" have inb: "i < length xs" and m: "is_model (xs ! i)" by simp_all
  show ?case
  proof (cases "node_content (xs ! i)")
    case None
    with inb m show ?thesis by (cases rest) simp_all
  next
    case (Some c)
    with "3.prems" have "runs_into_none c (j # rest)" by simp
    from "3.IH" [OF Some this] inb m Some show ?thesis by simp
  qed
qed

lemma runs_into_none_out_of_range: "runs_into_none xs path \<Longrightarrow> out_of_range xs path"
  by (induction xs path rule: runs_into_none.induct) (auto split: option.splits)

lemma get_parent_out_of_range:
  "out_of_range xs path \<Longrightarrow>
   get_parent_at_path xs (butlast path) = None
   \<or> (\<exists>p. get_parent_at_path xs (butlast path) = Some p \<and> length p \<le> last path)"
proof (induction xs path rule: out_of_range.induct)
  case (1 xs)
  then show ?case by simp
next
  case (2 xs i rest)
  show ?case
  proof (cases "rest = []")
    case True
    with "2.prems" show ?thesis by (simp split: if_splits)
  next
    case False
    show ?thesis
    proof (cases "i \<ge> length xs")
      case True
      with False show ?thesis by simp
    next
      case inb: False
      show ?thesis
      proof (cases "node_content (xs ! i)")
        case None
        with False inb show ?thesis by simp
      next
        case (Some c)
        with False inb "2.prems" have "out_of_range c rest" by simp
        from "2.IH" [OF inb False Some this] False inb Some show ?thesis by simp
      qed
    qed
  qed
qed

lemma node_content_set_node_content [simp]:
  "is_model n \<Longrightarrow> node_content (set_node_content n c) = c"
  by (cases n) simp_all

lemma get_put_parent:
  "get_parent_at_path xs p = Some l \<Longrightarrow>
   get_parent_at_path (put_parent_at_path xs p new) p = Some new"
proof (induction xs p arbitrary: l rule: get_parent_at_path.induct)
  case (1 current)
  show ?case by simp
next
  case (2 current index rest)
  from "2.prems" have inb: "\<not> length current \<le> index"
    by (simp split: if_splits)
  with "2.prems" obtain c where c: "node_content (current ! index) = Some c"
    "get_parent_at_path c rest = Some l"
    by (auto split: option.splits)
  from "2.IH" [OF inb c] inb c(1) has_content_is_model [OF c(1)] show ?case by simp
qed

lemma model_refresh [simp]: "model (refresh d) = model d"
  by (simp add: refresh_def)

lemma content_with_content [simp]: "dm_content (model (with_content d ns)) = ns"
  by (simp add: with_content_def)

lemma replace_out_of_range:
  assumes "path = [] \<or> out_of_range (dm_content (model d)) path"
  shows "replace_element_at_path d path new_element = (Inr False, d)"
proof (cases "path = []")
  case True
  then show ?thesis by (simp add: replace_element_at_path_def)
next
  case False
  with assms have "out_of_range (dm_content (model d)) path" by simp
  from get_parent_out_of_range [OF this] False show ?thesis
    by (auto simp: replace_element_at_path_def)
qed

lemma delete_out_of_range:
  assumes "path = [] \<or> out_of_range (dm_content (model d)) path"
  shows "delete_element_at_path d path = (False, d)"
proof (cases "path = []")
  case True
  then show ?thesis by (simp add: delete_element_at_path_def)
next
  case False
  with assms have "out_of_range (dm_content (model d)) path" by simp
  from get_parent_out_of_range [OF this] False show ?thesis
    by (auto simp: delete_element_at_path_def)
qed

text \<open>
  C4.  A path that runs into \<^verbatim>\<open>None\<close> is out of range: it holds an index for an array
  that is not there, under a node whose \<^verbatim>\<open>content\<close> is \<^verbatim>\<open>None\<close>.  Replace and delete
  return \<^verbatim>\<open>False\<close> on it and leave the document as it was, but the read does not return
  \<^verbatim>\<open>None\<close>: it raises \<^verbatim>\<open>TypeError\<close>, which \<^verbatim>\<open>_get_node_by_path\<close> does not catch.
\<close>

theorem read_through_missing_content_raises:
  assumes "runs_into_none (dm_content (model d)) path"
  shows "out_of_range (dm_content (model d)) path
       \<and> get_element_at_path d path = Inl TypeError
       \<and> replace_element_at_path d path new_element = (Inr False, d)
       \<and> delete_element_at_path d path = (False, d)"
proof -
  from assms have oor: "out_of_range (dm_content (model d)) path"
    by (rule runs_into_none_out_of_range)
  from assms have ne: "path \<noteq> []" by auto
  from navigate_runs_into_none [OF assms] ne
  have "get_element_at_path d path = Inl TypeError"
    by (auto simp: get_element_at_path_def get_node_by_path_def)
  with oor replace_out_of_range [of path d new_element] delete_out_of_range [of path d]
  show ?thesis by simp
qed

theorem read_through_missing_content_raises_witness:
  "runs_into_none (dm_content (model null_paragraph)) [0, 0]
   \<and> out_of_range (dm_content (model null_paragraph)) [0, 0]
   \<and> get_element_at_path null_paragraph [0, 0] = Inl TypeError
   \<and> replace_element_at_path null_paragraph [0, 0] (para ''c'') = (Inr False, null_paragraph)
   \<and> delete_element_at_path null_paragraph [0, 0] = (False, null_paragraph)"
proof -
  have r: "runs_into_none (dm_content (model null_paragraph)) [0, 0]"
    by code_simp
  from r read_through_missing_content_raises [OF r, of "para ''c''"] show ?thesis
    by simp
qed

text \<open>
  On every other path that is empty or out of range, reading returns \<^verbatim>\<open>None\<close>, and
  replace and delete return \<^verbatim>\<open>False\<close>; the whole document (raw data, model and element
  map) stays as it was.
\<close>

lemma path_errors_without_exception:
  assumes "path = [] \<or> out_of_range (dm_content (model d)) path"
    and "\<not> runs_into_none (dm_content (model d)) path"
  shows "get_element_at_path d path = Inr None
       \<and> replace_element_at_path d path new_element = (Inr False, d)
       \<and> delete_element_at_path d path = (False, d)"
proof -
  have "get_element_at_path d path = Inr None"
  proof (cases "path = []")
    case True
    then show ?thesis by (simp add: get_element_at_path_def get_node_by_path_def)
  next
    case False
    with assms(1) have "out_of_range (dm_content (model d)) path" by simp
    from navigate_out_of_range [OF this assms(2)] False show ?thesis
      by (auto simp: get_element_at_path_def get_node_by_path_def)
  qed
  with replace_out_of_range [OF assms(1)] delete_out_of_range [OF assms(1)]
  show ?thesis by simp
qed

text \<open>
  Insert puts the new element at index 0 for a negative index, at the end of the parent
  array for an index past it, and at the index itself otherwise; it returns \<^verbatim>\<open>True\<close>
  whenever the parent path resolves and the new element is stored (a dict must validate).
\<close>

lemma insert_clamps:
  assumes "get_parent_at_path (dm_content (model d)) parent_path = Some parent"
    and "element_to_store new_element = Inr n"
    and "k = (if index < 0 then 0 else if int (length parent) < index then length parent
              else nat index)"
  shows "\<exists>d'. insert_element_at_path d parent_path index new_element = (Inr True, d')
          \<and> get_parent_at_path (dm_content (model d')) parent_path
              = Some (take k parent @ [n] @ drop k parent)"
proof -
  from assms(3) have "clamp_index index (length parent) = k"
    by (auto simp: clamp_index_def)
  with assms(1,2) show ?thesis
    by (simp add: insert_element_at_path_def Let_def get_put_parent list_insert_def)
qed

lemma insert_past_the_end_appends:
  "length (dm_content (model two_paragraphs)) = 2
   \<and> map_prod id (\<lambda>d. dm_content (model d))
       (insert_element_at_path two_paragraphs [] 999 (para ''c''))
     = (Inr True, dm_content (model two_paragraphs) @ [node_c])
   \<and> map_prod id (\<lambda>d. map (dump_node True) (dm_content (model d)))
       (insert_element_at_path two_paragraphs [] (- 3) (para ''c''))
     = (Inr True, [para ''c'', para ''a'', para ''b''])
   \<and> map_prod id (\<lambda>d. map (dump_node True) (dm_content (model d)))
       (insert_element_at_path two_paragraphs [] 1 (para ''c''))
     = (Inr True, [para ''a'', para ''c'', para ''b''])"
  by code_simp

section \<open>Round trip through the serialised form\<close>





























lemma valid_refresh: "valid_model (model d) \<Longrightarrow> valid_model (model (refresh d))"
  by simp






lemma map_of_kept_fields:
  assumes "list_all (\<lambda>kv. fst kv \<notin> set (map fst F)) E" and "distinct (map fst F)"
  shows "map_of (filter P F @ E) k
         = (case map_of F k of Some v \<Rightarrow> if P (k, v) then Some v else None | None \<Rightarrow> map_of E k)"
  using assms
proof (induction F)
  case Nil
  show ?case by simp
next
  case (Cons kv F)
  obtain k' v' where kv: "kv = (k', v')" by (cases kv)
  from Cons.prems have E: "list_all (\<lambda>kv. fst kv \<notin> set (map fst F)) E" and d: "distinct (map fst F)"
    and k': "k' \<notin> set (map fst F)" and Ek': "map_of E k' = None"
    by (auto simp: list_all_iff kv map_of_eq_None_iff)
  note IH = Cons.IH [OF E d]
  show ?case
  proof (cases "k = k'")
    case True
    from k' have "map_of F k' = None"
      by (simp add: map_of_eq_None_iff)
    with True IH Ek' show ?thesis
      by (simp add: kv)
  next
    case False
    with IH show ?thesis by (simp add: kv)
  qed
qed


lemma keep_extra_idem: "filter (keep_extra True) (filter (keep_extra True) ex) = filter (keep_extra True) ex"
  by simp

lemma clean_filter:
  "list_all (\<lambda>kv. fst kv \<notin> S) ex \<Longrightarrow> list_all (\<lambda>kv. fst kv \<notin> S) (filter P ex)"
  by (auto simp: list_all_iff)


lemma has_key_kept_fields:
  assumes "list_all (\<lambda>kv. fst kv \<notin> set (map fst F)) E" and "distinct (map fst F)"
    and "map_of F k = Some v"
  shows "has_key (filter P F @ E) k = P (k, v)"
  unfolding has_key_def map_of_kept_fields [OF assms(1,2)] using assms(3) by simp















section \<open>Dispatch of the finder\<close>

lemma complex_criteria_vacuous:
  assumes "\<not> truthy (dict_get c ''text'')" "\<not> truthy (dict_get c ''node_type'')"
    "\<not> truthy (dict_get c ''attributes'')" "\<not> truthy (dict_get c ''marks'')"
  shows "node_matches_complex_criteria n c = Inr True"
  using assms
  by (simp add: node_matches_complex_criteria_def complex_text_check_def complex_type_check_def
      complex_attrs_check_def complex_marks_check_def bind_err_simps)

lemma search_dispatch_by_key:
  assumes "deciding_key c = Some k"
  shows "search_dispatch c d = run_strategy k (dict_get c k) d"
proof (cases "truthy (dict_get c ''json_path'')")
  case True
  with assms have "k = ''json_path''" by (simp add: deciding_key_def)
  with True show ?thesis by (simp add: search_dispatch_def run_strategy_def)
next
  case jp: False
  show ?thesis
  proof (cases "truthy (dict_get c ''text'')")
    case True
    with jp assms have "k = ''text''" by (simp add: deciding_key_def)
    with jp True show ?thesis by (simp add: search_dispatch_def run_strategy_def)
  next
    case tx: False
    show ?thesis
    proof (cases "truthy (dict_get c ''node_type'')")
      case True
      with jp tx assms have "k = ''node_type''" by (simp add: deciding_key_def)
      with jp tx True show ?thesis by (simp add: search_dispatch_def run_strategy_def)
    next
      case nt: False
      show ?thesis
      proof (cases "truthy (dict_get c ''attributes'')")
        case True
        with jp tx nt assms have "k = ''attributes''" by (simp add: deciding_key_def)
        with jp tx nt True show ?thesis by (simp add: search_dispatch_def run_strategy_def)
      next
        case at: False
        show ?thesis
        proof (cases "truthy (dict_get c ''marks'')")
          case True
          with jp tx nt at assms have "k = ''marks''" by (simp add: deciding_key_def)
          with jp tx nt at True show ?thesis by (simp add: search_dispatch_def run_strategy_def)
        next
          case mk: False
          with jp tx nt at assms have "k = ''index''" "dict_get c ''index'' \<noteq> JNull"
            by (simp_all add: deciding_key_def split: if_splits)
          with jp tx nt at mk show ?thesis by (simp add: search_dispatch_def run_strategy_def)
        qed
      qed
    qed
  qed
qed

lemma search_dispatch_fallback:
  assumes "deciding_key c = None"
  shows "search_dispatch c d
         = search_with_predicate (dm_content (model d)) [] (\<lambda>n. Inr True) []"
proof -
  from assms have f: "\<not> truthy (dict_get c ''json_path'')" "\<not> truthy (dict_get c ''text'')"
    "\<not> truthy (dict_get c ''node_type'')" "\<not> truthy (dict_get c ''attributes'')"
    "\<not> truthy (dict_get c ''marks'')" "dict_get c ''index'' = JNull"
    unfolding deciding_key_def by (metis option.distinct(1))+
  then have "(\<lambda>n. node_matches_complex_criteria n c) = (\<lambda>n. Inr True)"
    by (simp add: complex_criteria_vacuous)
  with f show ?thesis
    by (simp add: search_dispatch_def search_recursive_def)
qed

lemma search_dispatch_decided:
  assumes "deciding_key c1 = deciding_key c2"
    and "\<And>k. deciding_key c1 = Some k \<Longrightarrow> dict_get c1 k = dict_get c2 k"
  shows "search_dispatch c1 d = search_dispatch c2 d"
proof (cases "deciding_key c1")
  case None
  with assms(1) show ?thesis by (simp add: search_dispatch_fallback)
next
  case (Some k)
  with assms(1) have k2: "deciding_key c2 = Some k" by simp
  from assms(2) [OF Some] search_dispatch_by_key [OF Some] search_dispatch_by_key [OF k2]
  show ?thesis by simp
qed

text \<open>
  C2 (as amended).  One search strategy answers a call: the one named by the first key, in
  the order JSONPath, text, node type, attributes, marks, index, whose value is truthy
  (for the index: is not \<^verbatim>\<open>None\<close>), or the compound walk when there is none.  Two
  non-empty criteria with the same deciding key and the same value under it get the same
  answer, whatever their other keys hold.
\<close>

theorem dispatch_priority:
  assumes "c1 \<noteq> []" and "c2 \<noteq> []"
    and "deciding_key c1 = deciding_key c2"
    and "\<And>k. deciding_key c1 = Some k \<Longrightarrow> dict_get c1 k = dict_get c2 k"
  shows "find_element_in_adf ck d c1 limit ctx = find_element_in_adf ck d c2 limit ctx"
  using assms(1,2) search_dispatch_decided [OF assms(3,4), of d]
  by (simp add: find_element_in_adf_def find_elements_def Let_def has_key_def split: sum.splits)


theorem dispatch_priority_witness:
  "[(''json_path'', JStr ''$.content[0]''), (''text'', JStr ''ignored'')] \<noteq> []
   \<and> deciding_key [(''json_path'', JStr ''$.content[0]''), (''text'', JStr ''ignored'')] = Some ''json_path''
   \<and> find_element_in_adf constant_cache_key two_paragraphs
         [(''json_path'', JStr ''$.content[0]''), (''text'', JStr ''ignored'')] None True
       = find_element_in_adf constant_cache_key two_paragraphs
         [(''json_path'', JStr ''$.content[0]'')] None True"
proof -
  let ?c1 = "[(''json_path'', JStr ''$.content[0]''), (''text'', JStr ''ignored'')]"
  let ?c2 = "[(''json_path'', JStr ''$.content[0]'')]"
  have k1: "deciding_key ?c1 = Some ''json_path''" by (simp add: deciding_key_def dict_get_def)
  have k2: "deciding_key ?c2 = Some ''json_path''" by (simp add: deciding_key_def dict_get_def)
  have v: "dict_get ?c1 k = dict_get ?c2 k" if "deciding_key ?c1 = Some k" for k
    using that unfolding k1 by (simp add: dict_get_def)
  from dispatch_priority [of ?c1 ?c2 constant_cache_key two_paragraphs None True, OF _ _ _ v] k1 k2
  show ?thesis by simp
qed

text \<open>
  A key that is present with a falsy value does not take priority: with an empty
  \<^verbatim>\<open>text\<close>, the answer follows the lower-priority \<^verbatim>\<open>node_type\<close>.
\<close>

theorem falsy_key_is_skipped_counterexample:
  "map_sum id (map (\<lambda>r. ep_path (sr_path r)))
     (find_element_in_adf constant_cache_key two_paragraphs
        [(''text'', JStr []), (''node_type'', JStr ''paragraph'')] None True)
   = Inr [[0], [1]]
   \<and> find_element_in_adf constant_cache_key two_paragraphs
        [(''text'', JStr []), (''node_type'', JStr ''heading'')] None True
   = Inr []"
  by code_simp

text \<open>
  C9.  A truthy \<^verbatim>\<open>text\<close> criterion that is not a string makes the search raise
  \<^verbatim>\<open>AttributeError\<close> instead of returning no match.
\<close>

theorem text_criterion_not_a_string_raises:
  "find_element_in_adf constant_cache_key two_paragraphs [(''text'', JInt 123)] None True
   = Inl AttributeError"
  by code_simp

section \<open>Operations of the writer\<close>

text \<open>
  C6.  \<^verbatim>\<open>insert_before\<close> and \<^verbatim>\<open>insert_after\<close> test \<^verbatim>\<open>len(path) < 2\<close>, so a target
  that is a top-level child of the document (a path of one index) is turned down together
  with the root: both operations apply to 0 elements and leave the document as it was,
  although the sibling array of such a target is the root content array.
\<close>

theorem top_level_target_is_turned_down:
  assumes "length (ep_path (sr_path element_result)) = 1"
  shows "apply_insert_before_operation d element_result operation = (Inr 0, d)
       \<and> apply_insert_after_operation d element_result operation = (Inr 0, d)"
  using assms
  by (simp add: apply_insert_before_operation_def apply_insert_after_operation_def)

theorem top_level_target_is_turned_down_witness:
  "find_element_in_adf constant_cache_key two_paragraphs [(''index'', JInt 0)] None True
     = Inr [top_level_target]
   \<and> length (ep_path (sr_path top_level_target)) = 1
   \<and> apply_insert_before_operation two_paragraphs top_level_target (insert_x ''insert_before'')
     = (Inr 0, two_paragraphs)
   \<and> apply_insert_after_operation two_paragraphs top_level_target (insert_x ''insert_after'')
     = (Inr 0, two_paragraphs)"
proof -
  have found: "find_element_in_adf constant_cache_key two_paragraphs [(''index'', JInt 0)] None True
     = Inr [top_level_target]"
    by code_simp
  have len: "length (ep_path (sr_path top_level_target)) = 1"
    by (simp add: top_level_target_def node_result_def)
  from top_level_target_is_turned_down [OF len, of two_paragraphs "insert_x ''insert_before''"]
    top_level_target_is_turned_down [OF len, of two_paragraphs "insert_x ''insert_after''"]
    found len
  show ?thesis by simp
qed

text \<open>
  The whole operation on the document of two paragraphs: the first paragraph is found, the
  insertion next to it applies nowhere, while \<^verbatim>\<open>_insert_element_at_path\<close> with the empty
  parent path does insert into the root content array.
\<close>

lemma insert_beside_first_paragraph_applies_nowhere:
  "apply_operation constant_cache_key two_paragraphs (insert_x ''insert_before'')
     = (Inr False, two_paragraphs)
   \<and> apply_operation constant_cache_key two_paragraphs (insert_x ''insert_after'')
     = (Inr False, two_paragraphs)
   \<and> map_prod id (\<lambda>d. map (dump_node True) (dm_content (model d)))
       (insert_element_at_path two_paragraphs [] 0 (para ''x''))
     = (Inr True, [para ''x'', para ''a'', para ''b''])"
  by code_simp

lemma get_node_nil: "get_node_by_path d [] = Inr None"
  by (simp add: get_node_by_path_def)

lemma get_node_single:
  "get_node_by_path d [i]
   = (if i < length (dm_content (model d)) \<and> dm_content (model d) ! i \<noteq> Foreign JNull
      then Inr (Some (dm_content (model d) ! i)) else Inr None)"
  by (simp add: get_node_by_path_def)

lemma get_node_deeper:
  "get_node_by_path d (i # j # r)
   = (if i < length (dm_content (model d)) \<and> is_model (dm_content (model d) ! i)
      then (case node_content (dm_content (model d) ! i) of
              None \<Rightarrow> Inl TypeError
            | Some c \<Rightarrow> get_node_by_path (with_content d c) (j # r))
      else Inr None)"
proof (cases "node_content (dm_content (model d) ! i)")
  case None
  then show ?thesis by (cases r) (simp_all add: get_node_by_path_def)
next
  case (Some c)
  then show ?thesis
    by (cases r) (simp_all add: get_node_by_path_def split: sum.splits py_error.splits option.splits)
qed

lemma with_content_twice [simp]: "with_content (with_content d xs) ys = with_content d ys"
  by (simp add: with_content_def)

lemma length_set_node_at_path [simp]: "length (set_node_at_path xs p n) = length xs"
  by (induction xs p n rule: set_node_at_path.induct) (simp_all split: option.splits)

lemma own_fields_set_node_content:
  "length c' = length c \<Longrightarrow> node_content n = Some c
   \<Longrightarrow> own_fields (set_node_content n (Some c')) = own_fields n"
  by (cases n) (simp_all add: own_fields_def)

lemma is_model_set_node_content [simp]: "is_model (set_node_content n c) = is_model n"
  by (cases n) simp_all

lemma get_set_node_same:
  "get_node_by_path (with_content d xs) p = Inr (Some n) \<Longrightarrow> is_model n'
   \<Longrightarrow> get_node_by_path (with_content d (set_node_at_path xs p n')) p = Inr (Some n')"
proof (induction xs p n' arbitrary: n rule: set_node_at_path.induct)
  case (1 current n')
  then show ?case by (simp add: get_node_nil)
next
  case (2 current index n')
  from "2.prems"(2) have "n' \<noteq> Foreign JNull" by auto
  with "2.prems" show ?case by (simp add: get_node_single split: if_splits)
next
  case (3 current index v va n')
  from "3.prems"(1) have inb: "index < length current" and m: "is_model (current ! index)"
    by (simp_all add: get_node_deeper split: if_splits)
  with "3.prems"(1) obtain c where c: "node_content (current ! index) = Some c"
    and sub: "get_node_by_path (with_content d c) (v # va) = Inr (Some n)"
    by (cases "node_content (current ! index)") (simp_all add: get_node_deeper)
  from "3.IH" [OF inb c sub "3.prems"(2)] inb c m show ?case
    by (simp add: get_node_deeper)
qed

lemma get_set_node_other:
  "get_node_by_path (with_content d xs) p = Inr (Some n) \<Longrightarrow> node_content n' = node_content n
   \<Longrightarrow> is_model n \<Longrightarrow> is_model n' \<Longrightarrow> q \<noteq> p
   \<Longrightarrow> map_sum id (map_option own_fields)
         (get_node_by_path (with_content d (set_node_at_path xs p n')) q)
       = map_sum id (map_option own_fields) (get_node_by_path (with_content d xs) q)"
proof (induction xs p n' arbitrary: n q rule: set_node_at_path.induct)
  case (1 current n')
  then show ?case by (simp add: get_node_nil)
next
  case (2 current index n')
  from "2.prems"(1) have inb: "index < length current" and at: "current ! index = n"
    by (simp_all add: get_node_single split: if_splits)
  show ?case
  proof (cases q rule: remdups_adj.cases)
    case 1
    then show ?thesis by (simp add: get_node_nil)
  next
    case (2 k)
    with "2.prems"(5) have "k \<noteq> index" by simp
    with 2 show ?thesis by (simp add: get_node_single)
  next
    case (3 k l r)
    show ?thesis
    proof (cases "k = index")
      case True
      with 3 inb at "2.prems"(2,3,4) show ?thesis
        by (simp add: get_node_deeper split: option.splits)
    next
      case False
      with 3 show ?thesis by (simp add: get_node_deeper split: option.splits)
    qed
  qed
next
  case (3 current index v va n')
  from "3.prems"(1) have inb: "index < length current" and m: "is_model (current ! index)"
    by (simp_all add: get_node_deeper split: if_splits)
  with "3.prems"(1) obtain c where c: "node_content (current ! index) = Some c"
    and sub: "get_node_by_path (with_content d c) (v # va) = Inr (Some n)"
    by (cases "node_content (current ! index)") (simp_all add: get_node_deeper)
  from m have nn: "current ! index \<noteq> Foreign JNull" by auto
  from m have nn': "set_node_content (current ! index) cc \<noteq> Foreign JNull" for cc
    by (cases "current ! index") simp_all
  show ?case
  proof (cases q rule: remdups_adj.cases)
    case 1
    then show ?thesis by (simp add: get_node_nil)
  next
    case (2 k)
    show ?thesis
    proof (cases "k = index")
      case True
      with 2 inb c nn nn' show ?thesis
        by (simp add: get_node_single own_fields_set_node_content)
    next
      case False
      with 2 inb c show ?thesis by (simp add: get_node_single)
    qed
  next
    case q: (3 k l r)
    show ?thesis
    proof (cases "k = index")
      case True
      with q "3.prems"(5) have ne: "l # r \<noteq> v # va" by simp
      from "3.IH" [OF inb c sub "3.prems"(2,3,4) ne] True q inb c m show ?thesis
        by (simp add: get_node_deeper)
    next
      case False
      with q inb c show ?thesis by (simp add: get_node_deeper split: option.splits)
    qed
  qed
qed


lemma with_content_same [simp]: "with_content d (dm_content (model d)) = d"
  by (simp add: with_content_def)

lemma type_attr_text: "type_attr n = JStr ''text'' \<Longrightarrow> is_model n \<and> node_type n = ''text''"
  by (simp add: type_attr_def split: if_splits)

lemma node_setattr_text:
  assumes "is_model n" and "node_setattr n ''text'' v = Inr n'"
  shows "is_model n' \<and> node_text n' = (case v of JStr s \<Rightarrow> Some s | _ \<Rightarrow> None)
       \<and> node_marks n' = node_marks n \<and> node_attrs n' = node_attrs n
       \<and> node_type n' = node_type n \<and> node_content n' = node_content n
       \<and> node_extra n' = node_extra n"
  using assms
  by (cases n; cases v)
     (auto simp: node_setattr_def validate_text_field_def bind_err_def)

text \<open>
  C7.  \<^verbatim>\<open>update_text\<close> applied to one target: unless it returns 1 the document is as it
  was, and it returns 0 for every target that is not a text node.  When it returns 1 the
  target is a text node; afterwards the node at the target path has the new text and the
  marks, attributes, type, content and extra keys it had.  Every other path of the
  document leads to an element with its own fields as before (or fails as before), and the
  raw data, the element map and the extra keys of the document are as before.
\<close>

theorem update_text_changes_only_the_text:
  assumes "apply_update_text_operation d r operation = (res, d')"
    and "p = ep_path (sr_path r)"
  shows "(res \<noteq> Inr 1 \<longrightarrow> d' = d)
       \<and> (\<forall>n. get_element_at_path d p = Inr (Some n) \<and> type_attr n \<noteq> JStr ''text''
              \<longrightarrow> res = Inr 0)
       \<and> (res = Inr 1 \<longrightarrow>
            (\<exists>n n'. get_element_at_path d p = Inr (Some n) \<and> node_type n = ''text''
                 \<and> get_element_at_path d' p = Inr (Some n')
                 \<and> node_text n' = (case new_content operation of JStr s \<Rightarrow> Some s | _ \<Rightarrow> None)
                 \<and> node_marks n' = node_marks n \<and> node_attrs n' = node_attrs n
                 \<and> node_type n' = node_type n \<and> node_content n' = node_content n
                 \<and> node_extra n' = node_extra n)
          \<and> (\<forall>q. q \<noteq> p \<longrightarrow>
                 map_sum id (map_option own_fields) (get_element_at_path d' q)
                 = map_sum id (map_option own_fields) (get_element_at_path d q))
          \<and> raw_data d' = raw_data d \<and> element_map d' = element_map d
          \<and> dm_extra (model d') = dm_extra (model d)
          \<and> dm_fields_set (model d') = dm_fields_set (model d))"
proof (cases "get_node_by_path d p")
  case (Inl e)
  with assms show ?thesis
    by (auto simp: apply_update_text_operation_def get_element_at_path_def)
next
  case (Inr found)
  show ?thesis
  proof (cases found)
    case None
    with Inr assms show ?thesis
      by (auto simp: apply_update_text_operation_def get_element_at_path_def)
  next
    case (Some n)
    note get = Inr [unfolded Some]
    show ?thesis
    proof (cases "\<not> element_truthy n \<or> type_attr n \<noteq> JStr ''text''")
      case True
      with get assms show ?thesis
        by (auto simp: apply_update_text_operation_def get_element_at_path_def)
    next
      case False
      then have ty: "type_attr n = JStr ''text''" by simp
      from type_attr_text [OF ty] have m: "is_model n" and nt: "node_type n = ''text''"
        by simp_all
      show ?thesis
      proof (cases "node_setattr n ''text'' (new_content operation)")
        case (Inl e)
        with get False assms show ?thesis
          by (auto simp: apply_update_text_operation_def get_element_at_path_def)
      next
        case set: (Inr n')
        from get False set assms
        have res: "res = Inr 1"
          and d': "d' = with_content d (set_node_at_path (dm_content (model d)) p n')"
          by (auto simp: apply_update_text_operation_def get_element_at_path_def)
        from node_setattr_text [OF m set] have m': "is_model n'"
          and tx: "node_text n' = (case new_content operation of JStr s \<Rightarrow> Some s | _ \<Rightarrow> None)"
          and same: "node_marks n' = node_marks n" "node_attrs n' = node_attrs n"
            "node_type n' = node_type n" "node_content n' = node_content n"
            "node_extra n' = node_extra n"
          by simp_all
        from get have get0: "get_node_by_path (with_content d (dm_content (model d))) p = Inr (Some n)"
          by simp
        from get_set_node_same [OF get0 m']
        have at: "get_element_at_path d' p = Inr (Some n')"
          by (simp add: d' get_element_at_path_def)
        have other: "map_sum id (map_option own_fields) (get_element_at_path d' q)
                 = map_sum id (map_option own_fields) (get_element_at_path d q)" if "q \<noteq> p" for q
          using get_set_node_other [OF get0 same(4) m m' that]
          by (simp add: d' get_element_at_path_def)
        have frame: "raw_data d' = raw_data d" "element_map d' = element_map d"
          "dm_extra (model d') = dm_extra (model d)"
          "dm_fields_set (model d') = dm_fields_set (model d)"
          by (simp_all add: d' with_content_def)
        from get nt at tx same
        have target: "\<exists>n n'. get_element_at_path d p = Inr (Some n) \<and> node_type n = ''text''
                 \<and> get_element_at_path d' p = Inr (Some n')
                 \<and> node_text n' = (case new_content operation of JStr s \<Rightarrow> Some s | _ \<Rightarrow> None)
                 \<and> node_marks n' = node_marks n \<and> node_attrs n' = node_attrs n
                 \<and> node_type n' = node_type n \<and> node_content n' = node_content n
                 \<and> node_extra n' = node_extra n"
          by (simp add: get_element_at_path_def)
        from res ty get have second: "\<forall>n. get_element_at_path d p = Inr (Some n)
              \<and> type_attr n \<noteq> JStr ''text'' \<longrightarrow> res = Inr 0"
          by (simp add: get_element_at_path_def)
        from res second target other frame show ?thesis
          by blast
      qed
    qed
  qed
qed

theorem update_text_changes_only_the_text_witness:
  "find_element_in_adf constant_cache_key bold_doc [(''text'', JStr ''old'')] None True
     = Inr [bold_target\<lparr>sr_parent := sr_parent (hd (projr
         (find_element_in_adf constant_cache_key bold_doc [(''text'', JStr ''old'')] None True)))\<rparr>]
   \<and> fst (apply_update_text_operation bold_doc bold_target update_text_new) = Inr 1
   \<and> map (dump_node True)
        (dm_content (model (snd (apply_update_text_operation bold_doc bold_target update_text_new))))
     = [JObj [(''type'', JStr ''paragraph''), (''content'', JArr [bold_text ''new''])], para ''b'']
   \<and> (\<exists>n n'. get_element_at_path bold_doc [0, 0] = Inr (Some n)
          \<and> get_element_at_path
               (snd (apply_update_text_operation bold_doc bold_target update_text_new)) [0, 0]
             = Inr (Some n')
          \<and> node_text n' = Some ''new'' \<and> node_marks n' = node_marks n)
   \<and> apply_update_text_operation bold_doc top_level_bold update_text_new = (Inr 0, bold_doc)"
proof -
  have found: "find_element_in_adf constant_cache_key bold_doc [(''text'', JStr ''old'')] None True
     = Inr [bold_target\<lparr>sr_parent := sr_parent (hd (projr
         (find_element_in_adf constant_cache_key bold_doc [(''text'', JStr ''old'')] None True)))\<rparr>]"
    by code_simp
  have one: "fst (apply_update_text_operation bold_doc bold_target update_text_new) = Inr 1"
    by code_simp
  have dump: "map (dump_node True)
        (dm_content (model (snd (apply_update_text_operation bold_doc bold_target update_text_new))))
     = [JObj [(''type'', JStr ''paragraph''), (''content'', JArr [bold_text ''new''])], para ''b'']"
    by code_simp
  have p: "[0, 0] = ep_path (sr_path bold_target)"
    by (simp add: bold_target_def node_result_def)
  have nc: "new_content update_text_new = JStr ''new''"
    by (simp add: update_text_new_def)
  from update_text_changes_only_the_text
    [of bold_doc bold_target update_text_new _ _ "[0, 0]", OF surjective_pairing p] one nc
  have tgt: "\<exists>n n'. get_element_at_path bold_doc [0, 0] = Inr (Some n)
          \<and> get_element_at_path
               (snd (apply_update_text_operation bold_doc bold_target update_text_new)) [0, 0]
             = Inr (Some n')
          \<and> node_text n' = Some ''new'' \<and> node_marks n' = node_marks n"
    by auto
  have p1: "[0] = ep_path (sr_path top_level_bold)"
    by (simp add: top_level_bold_def node_result_def)
  have nt: "get_element_at_path bold_doc [0] = Inr (Some (dm_content (model bold_doc) ! 0))"
    "type_attr (dm_content (model bold_doc) ! 0) \<noteq> JStr ''text''"
    by code_simp+
  from update_text_changes_only_the_text
    [of bold_doc top_level_bold update_text_new _ _ "[0]", OF surjective_pairing p1] nt
  have zero: "apply_update_text_operation bold_doc top_level_bold update_text_new = (Inr 0, bold_doc)"
    by (metis numeral_One one_neq_zero prod.collapse sum.inject(2) zero_neq_one)
  from found one dump tgt zero show ?thesis by blast
qed






lemma py_eq_JStr: "py_eq (JStr s) y = (y = JStr s)"
  by simp

lemma dump_mark_type: "mark_type_of (dump_mark False m) = JStr (mark_type m)"
  by (cases m) (simp add: mark_type_of_def dict_get_def keep_field_def)













section \<open>The retry loop of the writer\<close>

lemma parse_page_total:
  "\<exists>doc. parse_page_to_adf (JObj page) = Inr doc"
  by (simp add: parse_page_to_adf_def py_contains_def bind_err_simps split: json.splits)

lemma fetchable_version:
  "fetchable p \<Longrightarrow> \<exists>v. version_number_of p = Inr v"
  by (auto simp: fetchable_def version_number_of_def split: json.splits)

lemma attempt_conflict:
  assumes "fetchable (serve history)"
  shows "\<exists>self'. attempt cache_key (conflicting_client serve message clock) page_id operations
            validate_before_update create_backup retry_count self history
         = (Inl (ValueError (message (history @ [Fetch page_id]))), self',
            history @ [Fetch page_id, expected_write cache_key page_id operations (serve history)])"
proof -
  from assms obtain page where page: "serve history = JObj page"
    by (auto simp: fetchable_def split: json.splits)
  from parse_page_total [of page] obtain doc where doc: "parse_page_to_adf (JObj page) = Inr doc"
    by blast
  from fetchable_version [OF assms] page obtain v where v: "version_number_of (JObj page) = Inr v"
    by auto
  show ?thesis
    by (simp add: attempt_def conflicting_client_def page doc v Let_def expected_write_def
        split: prod.splits)
qed


lemma str_int_nat: "str_int (int n) = str_nat n"
  by (simp add: str_int_def)

lemma loop_conflict:
  assumes "\<forall>history. fetchable (serve history)"
    and "\<forall>history. contains ''conflict'' (lower (message history))"
    and "r \<le> n"
  shows "\<exists>self'. update_loop cache_key (conflicting_client serve message clock) page_id operations
            validate_before_update create_backup True (int n) (int r) last_error self history
         = (Inl (retries_exceeded (int n)
                   (message (butlast (passes cache_key page_id operations serve (Suc (n - r)) history)))),
            self', passes cache_key page_id operations serve (Suc (n - r)) history)"
  using assms(3)
proof (induction "n - r" arbitrary: r last_error self history)
  case 0
  then have r: "r = n" by simp
  from attempt_conflict [of serve history cache_key message clock page_id operations
      validate_before_update create_backup "int r" self] assms(1)
  obtain self' where a: "attempt cache_key (conflicting_client serve message clock) page_id operations
            validate_before_update create_backup (int r) self history
         = (Inl (ValueError (message (history @ [Fetch page_id]))), self',
            history @ [Fetch page_id, expected_write cache_key page_id operations (serve history)])"
    by blast
  have b: "butlast (history @ [Fetch page_id, expected_write cache_key page_id operations (serve history)])
           = history @ [Fetch page_id]"
    by (simp add: butlast_append)
  show ?case
    apply (subst update_loop.simps)
    using assms(2) a
    by (simp add: r is_value_error_def exception_str_def b del: update_loop.simps)
next
  case (Suc k)
  then have lt: "r < n" and k: "k = n - Suc r" and le: "Suc r \<le> n" by simp_all
  from attempt_conflict [of serve history cache_key message clock page_id operations
      validate_before_update create_backup "int r" self] assms(1)
  obtain self1 where a: "attempt cache_key (conflicting_client serve message clock) page_id operations
            validate_before_update create_backup (int r) self history
         = (Inl (ValueError (message (history @ [Fetch page_id]))), self1,
            history @ [Fetch page_id, expected_write cache_key page_id operations (serve history)])"
    by blast
  let ?h = "history @ [Fetch page_id, expected_write cache_key page_id operations (serve history)]"
  from Suc.hyps(1) [OF k le, of "Some (ValueError (message (history @ [Fetch page_id])))" self1 ?h]
  obtain self' where rec: "update_loop cache_key (conflicting_client serve message clock) page_id
            operations validate_before_update create_backup True (int n) (int (Suc r))
            (Some (ValueError (message (history @ [Fetch page_id])))) self1 ?h
         = (Inl (retries_exceeded (int n)
                   (message (butlast (passes cache_key page_id operations serve (Suc (n - Suc r)) ?h)))),
            self', passes cache_key page_id operations serve (Suc (n - Suc r)) ?h)"
    by blast
  from lt have sn: "Suc (n - r) = Suc (Suc (n - Suc r))" by simp
  have ir: "int r + 1 = int (Suc r)" by simp
  show ?case
    apply (subst update_loop.simps)
    using assms(2) a lt rec
    by (simp add: is_value_error_def exception_str_def sn ir del: update_loop.simps of_nat_Suc)
qed

lemma length_passes:
  "length (passes ck pid ops serve k h) = length h + 2 * k"
  by (induction k arbitrary: h) simp_all

lemma take_passes:
  "take (length h) (passes ck pid ops serve k h) = h"
proof (induction k arbitrary: h)
  case 0
  show ?case by simp
next
  case (Suc k)
  let ?h = "h @ [Fetch pid, expected_write ck pid ops (serve h)]"
  from Suc [of ?h] have "take (length h) (take (length ?h) (passes ck pid ops serve k ?h)) = take (length h) ?h"
    by simp
  then show ?case by (simp add: min_def)
qed

lemma nth_passes:
  "j < k \<Longrightarrow>
   passes ck pid ops serve k h ! (length h + 2 * j) = Fetch pid
   \<and> passes ck pid ops serve k h ! (length h + 2 * j + 1)
     = expected_write ck pid ops (serve (take (length h + 2 * j) (passes ck pid ops serve k h)))"
proof (induction k arbitrary: h j)
  case 0
  then show ?case by simp
next
  case (Suc k)
  let ?h = "h @ [Fetch pid, expected_write ck pid ops (serve h)]"
  let ?P = "passes ck pid ops serve k ?h"
  have len: "length ?h = length h + 2" by simp
  from take_passes [of ?h ck pid ops serve k] have tk: "take (length h + 2) ?P = ?h"
    by simp
  show ?case
  proof (cases j)
    case 0
    from tk have "take (length h + 2) ?P ! length h = ?h ! length h"
      and "take (length h + 2) ?P ! (length h + 1) = ?h ! (length h + 1)"
      and "take (length h) (take (length h + 2) ?P) = take (length h) ?h"
      by simp_all
    then show ?thesis
      by (simp add: 0 nth_append min_def)
  next
    case (Suc i)
    with Suc.prems have i: "i < k" by simp
    from Suc.IH [OF i, of ?h] show ?thesis
      by (simp add: Suc add.commute add.left_commute)
  qed
qed

text \<open>
  C5.  Against a client that serves a page at every fetch and answers every write with a
  \<^verbatim>\<open>ValueError\<close> whose text contains \<^verbatim>\<open>conflict\<close>, an update with
  \<^verbatim>\<open>max_retries = n\<close> (and \<^verbatim>\<open>auto_retry_on_conflict\<close>) makes exactly \<open>n + 1\<close> passes and
  then raises \<^verbatim>\<open>RuntimeError\<close> with the text
  \<^verbatim>\<open>Page update failed after n retries: \<close> followed by the last conflict message.  The
  history of the client grows by \<open>2 * (n + 1)\<close> calls: for every \<open>k \<le> n\<close> a fetch of the
  page, then the write of the operations applied to the page that this very fetch
  returned, under its title and version number.
\<close>

theorem conflict_is_retried_max_retries_times:
  assumes "\<forall>history. fetchable (serve history)"
    and "\<forall>history. contains ''conflict'' (lower (message history))"
    and "page_id \<noteq> []" and "operations \<noteq> []"
    and "update_page_preserving_formatting cache_key
           (ADFWriter_init (Some (conflicting_client serve message clock))) page_id operations
           validate_before_update create_backup True (int n) history
         = (result, self', log)"
  shows "result = Inl (RuntimeError (''Page update failed after '' @ str_nat n @ '' retries: ''
                                      @ message (butlast log)))
       \<and> length log = length history + 2 * (n + 1)
       \<and> take (length history) log = history
       \<and> (\<forall>k\<le>n. log ! (length history + 2 * k) = Fetch page_id
                 \<and> log ! (length history + 2 * k + 1)
                   = expected_write cache_key page_id operations
                       (serve (take (length history + 2 * k) log)))"
proof -
  from loop_conflict [OF assms(1,2), of 0 n cache_key clock page_id operations
      validate_before_update create_backup None
      "ADFWriter_init (Some (conflicting_client serve message clock))" history] assms(3,4,5)
  have res: "result = Inl (retries_exceeded (int n) (message (butlast log)))"
    and log: "log = passes cache_key page_id operations serve (Suc n) history"
    by (auto simp: update_page_preserving_formatting_def ADFWriter_init_def)
  have nth: "log ! (length history + 2 * k) = Fetch page_id
           \<and> log ! (length history + 2 * k + 1)
             = expected_write cache_key page_id operations
                 (serve (take (length history + 2 * k) log))" if "k \<le> n" for k
    unfolding log using that by (intro nth_passes) simp
  from res nth show ?thesis
    by (simp add: retries_exceeded_def str_int_nat log length_passes take_passes
        del: passes.simps)
qed


theorem conflict_is_retried_max_retries_times_witness:
  "fst (update_page_preserving_formatting constant_cache_key
          (ADFWriter_init (Some stubborn_client)) ''123456'' [replace_by_new] True True True 1 [])
   = Inl (RuntimeError (''Page update failed after 1 retries: '' @ conflict_message))
   \<and> length (snd (snd (update_page_preserving_formatting constant_cache_key
          (ADFWriter_init (Some stubborn_client)) ''123456'' [replace_by_new] True True True 1 [])))
     = 4
   \<and> map (\<lambda>k. snd (snd (update_page_preserving_formatting constant_cache_key
          (ADFWriter_init (Some stubborn_client)) ''123456'' [replace_by_new] True True True 1 [])) ! k)
        [0, 1, 2, 3]
     = [Fetch ''123456'', expected_write constant_cache_key ''123456'' [replace_by_new] served_page,
        Fetch ''123456'', expected_write constant_cache_key ''123456'' [replace_by_new] served_page]"
proof -
  let ?run = "update_page_preserving_formatting constant_cache_key
          (ADFWriter_init (Some stubborn_client)) ''123456'' [replace_by_new] True True True 1 []"
  have f: "\<forall>history :: call list. fetchable served_page"
    by (simp add: fetchable_def served_page_def get_or_def)
  have "contains ''conflict'' (lower conflict_message)"
    by code_simp
  then have c: "\<forall>history :: call list. contains ''conflict'' (lower conflict_message)"
    by simp
  have run: "update_page_preserving_formatting constant_cache_key
          (ADFWriter_init (Some (conflicting_client (\<lambda>history. served_page)
             (\<lambda>history. conflict_message) (\<lambda>history. 0))))
          ''123456'' [replace_by_new] True True True (int 1) []
        = (fst ?run, fst (snd ?run), snd (snd ?run))"
    by (simp add: stubborn_client_def)
  have one: "str_nat 1 = ''1''"
    by code_simp
  from conflict_is_retried_max_retries_times [OF f c _ _ run]
  have r: "fst ?run = Inl (RuntimeError (''Page update failed after '' @ str_nat 1 @ '' retries: ''
                                      @ conflict_message))"
    and l: "length (snd (snd ?run)) = 4"
    and n: "\<forall>k\<le>1. snd (snd ?run) ! (2 * k) = Fetch ''123456''
                 \<and> snd (snd ?run) ! (2 * k + 1)
                   = expected_write constant_cache_key ''123456'' [replace_by_new] served_page"
    by simp_all
  from n [rule_format, of 0] n [rule_format, of 1]
  have "snd (snd ?run) ! 0 = Fetch ''123456''"
    "snd (snd ?run) ! 1 = expected_write constant_cache_key ''123456'' [replace_by_new] served_page"
    "snd (snd ?run) ! 2 = Fetch ''123456''"
    "snd (snd ?run) ! 3 = expected_write constant_cache_key ''123456'' [replace_by_new] served_page"
    by simp_all
  with r l one show ?thesis by simp
qed

text \<open>
  The run with \<^verbatim>\<open>max_retries = 1\<close> on the served page, written out: two fetches, each
  followed by the write of the page with its text replaced.
\<close>

lemma two_attempts_on_the_served_page:
  "map_prod id snd (update_page_preserving_formatting constant_cache_key
          (ADFWriter_init (Some stubborn_client)) ''123456'' [replace_by_new] True True True 1 [])
   = (Inl (RuntimeError ''Page update failed after 1 retries: Page version conflict - page may have been updated by another user''),
      [Fetch ''123456'',
       Write ''123456''
         [(''title'', JStr ''Notes''),
          (''body'', JObj [(''version'', JInt 1), (''type'', JStr ''doc''),
                           (''content'', JArr [para ''new'', para ''b''])])]
         (JInt 7),
       Fetch ''123456'',
       Write ''123456''
         [(''title'', JStr ''Notes''),
          (''body'', JObj [(''version'', JInt 1), (''type'', JStr ''doc''),
                           (''content'', JArr [para ''new'', para ''b''])])]
         (JInt 7)])"
  by code_simp

end
